theory Spec2Isabelle
  imports Main
begin

section \<open>Go library functions used by the code\<close>

text \<open>
  Go strings are byte strings; \<^typ>\<open>string\<close> is a list of 8-bit characters, so lengths
  and comparisons agree. The functions of package \<^verbatim>\<open>strings\<close> are written out
  for the arguments the code passes.
\<close>

definition HasPrefix :: "string \<Rightarrow> string \<Rightarrow> bool" where
  "HasPrefix s p = (take (length p) s = p)"

definition HasSuffix :: "string \<Rightarrow> string \<Rightarrow> bool" where
  "HasSuffix s x = (length x \<le> length s \<and> drop (length s - length x) s = x)"

definition TrimPrefix :: "string \<Rightarrow> string \<Rightarrow> string" where
  "TrimPrefix s p = (if HasPrefix s p then drop (length p) s else s)"

definition TrimSuffix :: "string \<Rightarrow> string \<Rightarrow> string" where
  "TrimSuffix s x = (if HasSuffix s x then take (length s - length x) s else s)"

fun Contains :: "string \<Rightarrow> string \<Rightarrow> bool" where
  "Contains [] sub = (sub = [])"
| "Contains (c # cs) sub = (HasPrefix (c # cs) sub \<or> Contains cs sub)"

text \<open>
  \<^verbatim>\<open>strings.Split(s, sep)\<close> for a separator of one byte (the code splits on
  \<^verbatim>\<open>":"\<close> and \<^verbatim>\<open>"*"\<close> only): the pieces between the occurrences of the
  byte, one more piece than occurrences. (The result of the recursive call is never
  empty; the first branch of the \<open>case\<close> only makes the function total.)
\<close>

fun Split :: "string \<Rightarrow> char \<Rightarrow> string list" where
  "Split [] sep = [[]]"
| "Split (c # cs) sep =
     (if c = sep then [] # Split cs sep
      else (case Split cs sep of
              [] \<Rightarrow> [[c]]
            | p # ps \<Rightarrow> (c # p) # ps))"

section \<open>Time\<close>

text \<open>
  An instant is the number of nanoseconds since the Unix epoch, a \<^verbatim>\<open>time.Duration\<close>
  a number of nanoseconds. \<^verbatim>\<open>t.Unix()\<close> is the number of whole seconds. Each
  operation below takes the instant \<open>now\<close> at which it runs and reads the clock as that
  instant throughout.
\<close>

definition Second :: int where
  "Second = 1000000000"

definition Minute :: int where
  "Minute = 60 * Second"

definition Hour :: int where
  "Hour = 60 * Minute"

definition Unix :: "int \<Rightarrow> int" where
  "Unix t = t div Second"

section \<open>Data model\<close>

text \<open>
  The structs of packages \<^verbatim>\<open>oauth2\<close> and \<^verbatim>\<open>manager\<close>. Several structs share field
  names (\<^verbatim>\<open>ClientID\<close>, \<^verbatim>\<open>Scopes\<close>, \<^verbatim>\<open>CreateTime\<close>, ...); each field carries
  a prefix naming its struct: \<open>cl_\<close> for \<^verbatim>\<open>Client\<close>, \<open>ac_\<close> for
  \<^verbatim>\<open>AuthorizationCode\<close>, \<open>at_\<close> for \<^verbatim>\<open>AccessToken\<close>, \<open>ti_\<close> for
  \<^verbatim>\<open>TokenInfo\<close>, \<open>se_\<close> for \<^verbatim>\<open>Session\<close>.
\<close>

record Client =
  cl_ClientID :: string
  cl_ClientSecret :: string
  cl_RedirectURIs :: "string list"
  cl_GrantTypes :: "string list"
  cl_Scopes :: "string list"

record AuthorizationCode =
  ac_Code :: string
  ac_ClientID :: string
  ac_RedirectURI :: string
  ac_UserID :: string
  ac_Scopes :: "string list"
  ac_CreateTime :: int
  ac_ExpiresIn :: int
  ac_Used :: bool

record AccessToken =
  at_Token :: string
  at_TokenType :: string
  at_ExpiresIn :: int
  at_RefreshToken :: string
  at_Scopes :: "string list"
  at_UserID :: string
  at_ClientID :: string

record TokenInfo =
  ti_LoginID :: string
  ti_Device :: string
  ti_CreateTime :: int
  ti_ActiveTime :: int
  ti_Tag :: string

text \<open>
  The storage holds values of type \<^verbatim>\<open>interface{}\<close>. The code stores strings (token
  values, marshalled JSON, the disable marker), an \<^verbatim>\<open>int64\<close> (the nonce's creation
  time), and pointers to \<^verbatim>\<open>AuthorizationCode\<close> and \<^verbatim>\<open>AccessToken\<close>. A stored
  pointer is modelled by the value it points to: the one place that writes through such a
  pointer (\<^verbatim>\<open>authCode.Used = true\<close>) stores the object again under the only key that
  holds it.
\<close>

datatype val =
    VStr string
  | VInt int
  | VCode AuthorizationCode
  | VTok AccessToken

datatype error =
    KeyNotFound string
  | KeyExpired string
  | RandFailed
  | SignFailed
  | AccountDisabled
  | GenerateFailed error
  | TokenNotFound
  | InvalidTokenInfo
  | NotLogin
  | ClientNotFound
  | InvalidRedirectURI
  | InvalidClientCredentials
  | InvalidAuthorizationCode
  | InvalidCodeData
  | CodeAlreadyUsed
  | ClientMismatch
  | RedirectURIMismatch
  | CodeExpired
  | InvalidAccessToken
  | InvalidTokenData
  | InvalidRefreshToken
  | InvalidRefreshTokenData

section \<open>In-memory storage (storage/memory/memory.go)\<close>

record item =
  val_of :: val
  expiration :: int

type_synonym Storage = "string \<rightharpoonup> item"

definition isExpired :: "item \<Rightarrow> int \<Rightarrow> bool" where
  "isExpired i now = (if expiration i = 0 then False else Unix now > expiration i)"

definition NewStorage :: Storage where
  "NewStorage = Map.empty"

definition Storage_Set :: "Storage \<Rightarrow> int \<Rightarrow> string \<Rightarrow> val \<Rightarrow> int \<Rightarrow> Storage" where
  "Storage_Set s now key v ttl =
     (let exp = (if ttl > 0 then Unix (now + ttl) else 0)
      in s(key \<mapsto> \<lparr>val_of = v, expiration = exp\<rparr>))"

definition Storage_Get :: "Storage \<Rightarrow> int \<Rightarrow> string \<Rightarrow> error + val" where
  "Storage_Get s now key =
     (case s key of
        None \<Rightarrow> Inl (KeyNotFound key)
      | Some i \<Rightarrow> if isExpired i now then Inl (KeyExpired key) else Inr (val_of i))"

definition Storage_Delete :: "Storage \<Rightarrow> string \<Rightarrow> Storage" where
  "Storage_Delete s key = s(key := None)"

definition Storage_Exists :: "Storage \<Rightarrow> int \<Rightarrow> string \<Rightarrow> bool" where
  "Storage_Exists s now key =
     (case s key of
        None \<Rightarrow> False
      | Some i \<Rightarrow> if isExpired i now then False else True)"

definition Storage_Expire :: "Storage \<Rightarrow> int \<Rightarrow> string \<Rightarrow> int \<Rightarrow> error option \<times> Storage" where
  "Storage_Expire s now key ttl =
     (case s key of
        None \<Rightarrow> (Some (KeyNotFound key), s)
      | Some i \<Rightarrow>
          (None, s(key \<mapsto> i\<lparr>expiration := (if ttl > 0 then Unix (now + ttl) else 0)\<rparr>)))"

text \<open>\<^verbatim>\<open>TTL\<close> returns a duration together with an error; both are kept.\<close>

definition Storage_TTL :: "Storage \<Rightarrow> int \<Rightarrow> string \<Rightarrow> int \<times> error option" where
  "Storage_TTL s now key =
     (case s key of
        None \<Rightarrow> (- 2 * Second, Some (KeyNotFound key))
      | Some i \<Rightarrow>
          if expiration i = 0 then (- 1 * Second, None)
          else (let ttl = expiration i - Unix now
                in if ttl < 0 then (- 2 * Second, None) else (ttl * Second, None)))"

text \<open>
  The background goroutine \<^verbatim>\<open>cleanup\<close> removes every expired item once a minute; one
  round of it at instant \<open>now\<close>:
\<close>

definition cleanup :: "Storage \<Rightarrow> int \<Rightarrow> Storage" where
  "cleanup s now =
     (\<lambda>key. case s key of
               None \<Rightarrow> None
             | Some i \<Rightarrow> if isExpired i now then None else Some i)"

definition matchPattern :: "string \<Rightarrow> string \<Rightarrow> bool" where
  "matchPattern key pattern0 =
     (if pattern0 = [] \<or> pattern0 = ''*'' then True
      else
        (let pattern = TrimPrefix pattern0 ''**/'' in
         if HasSuffix pattern ''*'' then HasPrefix key (TrimSuffix pattern ''*'')
         else if HasPrefix pattern ''*'' then HasSuffix key (TrimPrefix pattern ''*'')
         else if Contains pattern ''*'' \<and> length (Split pattern (CHR ''*'')) = 2
           then HasPrefix key (Split pattern (CHR ''*'') ! 0) \<and>
                HasSuffix key (Split pattern (CHR ''*'') ! 1)
         else key = pattern))"

text \<open>
  \<^verbatim>\<open>Keys\<close> ranges over the Go map, whose iteration order is unspecified: every key
  is visited once, in some order. The order is the argument \<open>order\<close>, an enumeration of
  the keys of the map.
\<close>

definition Storage_Keys :: "Storage \<Rightarrow> int \<Rightarrow> string list \<Rightarrow> string \<Rightarrow> string list" where
  "Storage_Keys s now order pattern =
     filter (\<lambda>key. case s key of
                      None \<Rightarrow> False
                    | Some i \<Rightarrow> \<not> isExpired i now \<and> matchPattern key pattern) order"

definition iteration_order :: "Storage \<Rightarrow> string list \<Rightarrow> bool" where
  "iteration_order s order = (distinct order \<and> set order = dom s)"

section \<open>Randomness, encodings and external libraries\<close>

text \<open>
  A byte slice is a list of 8-bit characters. \<^verbatim>\<open>crypto/rand\<close> is the environment's:
  an operation receives the answers of the random source as an argument. \<open>reads k\<close> is
  the answer to the operation's \<open>k\<close>-th call of \<^verbatim>\<open>rand.Read\<close> (the bytes delivered, or
  \<open>None\<close> when the source fails), \<open>ints k\<close> the answer to its \<open>k\<close>-th call of
  \<^verbatim>\<open>rand.Int(rand.Reader, max)\<close>.
\<close>

type_synonym bytes = "char list"

record Rand =
  reads :: "nat \<Rightarrow> bytes option"
  ints :: "nat \<Rightarrow> nat option"

text \<open>
  \<^verbatim>\<open>b := make([]byte, n); rand.Read(b)\<close>: the buffer has \<open>n\<close> bytes, all zero before
  the source fills it.
\<close>

definition rand_Read :: "bytes option \<Rightarrow> nat \<Rightarrow> bytes option" where
  "rand_Read answer n =
     (case answer of
        None \<Rightarrow> None
      | Some bs \<Rightarrow> Some (take n (bs @ replicate n (CHR 0x00))))"

definition hexdigit :: "nat \<Rightarrow> char" where
  "hexdigit d = ''0123456789abcdef'' ! (d mod 16)"

definition EncodeToString :: "bytes \<Rightarrow> string" where
  "EncodeToString bs =
     concat (map (\<lambda>b. [hexdigit (of_char b div 16), hexdigit (of_char b mod 16)]) bs)"

definition b64char :: "nat \<Rightarrow> char" where
  "b64char d =
     ''ABCDEFGHIJKLMNOPQRSTUVWXYZabcdefghijklmnopqrstuvwxyz0123456789-_'' ! (d mod 64)"

text \<open>\<^verbatim>\<open>base64.URLEncoding.EncodeToString\<close> (with padding).\<close>

fun b64 :: "nat list \<Rightarrow> string" where
  "b64 [] = []"
| "b64 [a] = [b64char (a div 4), b64char ((a mod 4) * 16), CHR ''='', CHR ''='']"
| "b64 [a, b] =
     [b64char (a div 4), b64char ((a mod 4) * 16 + b div 16), b64char ((b mod 16) * 4),
      CHR ''='']"
| "b64 (a # b # c # r) =
     [b64char (a div 4), b64char ((a mod 4) * 16 + b div 16),
      b64char ((b mod 16) * 4 + c div 64), b64char (c mod 64)] @ b64 r"

definition URLEncoding_EncodeToString :: "bytes \<Rightarrow> string" where
  "URLEncoding_EncodeToString bs = b64 (map of_char bs)"

text \<open>\<^verbatim>\<open>%d\<close> of \<^verbatim>\<open>fmt.Sprintf\<close>: the decimal numeral of an integer.\<close>

function dec_nat :: "nat \<Rightarrow> string" where
  "dec_nat n =
     (if n < 10 then [''0123456789'' ! n] else dec_nat (n div 10) @ [''0123456789'' ! (n mod 10)])"
  by pat_completeness auto
termination
  by (relation "measure id") auto

definition Itoa :: "int \<Rightarrow> string" where
  "Itoa i = (if i < 0 then CHR ''-'' # dec_nat (nat (- i)) else dec_nat (nat i))"

text \<open>Arithmetic on \<^verbatim>\<open>int64\<close> wraps around.\<close>

definition int64 :: "int \<Rightarrow> int" where
  "int64 x = (x + 2 ^ 63) mod 2 ^ 64 - 2 ^ 63"

text \<open>
  \<^verbatim>\<open>int64(d.Seconds())\<close>: the duration in seconds, truncated toward zero.
\<close>

definition Seconds :: "int \<Rightarrow> int" where
  "Seconds d = (if d \<ge> 0 then d div Second else - ((- d) div Second))"

text \<open>
  A Go call either returns or panics. Functions that return \<^verbatim>\<open>(T, error)\<close> return a
  value of \<^typ>\<open>error + 'a\<close>.
\<close>

datatype 'a go = Returns 'a | Panics

text \<open>
  Values of type \<^verbatim>\<open>interface{}\<close> in a session's data.
\<close>

datatype any =
    AString string
  | AInt int
  | AStrings "string list"
  | AList "any list"

record Session =
  se_ID :: string
  se_CreateTime :: int
  se_Data :: "string \<rightharpoonup> any"

record JwtClaims =
  jc_loginId :: string
  jc_device :: string
  jc_iat :: int
  jc_exp :: "int option"

text \<open>
  Third-party and standard-library functions whose results the code stores or returns
  without inspecting them are parameters of the model: SHA-256, the HS256 signature of
  \<^verbatim>\<open>golang-jwt\<close> (which cannot fail for a byte-slice key), and \<^verbatim>\<open>encoding/json\<close>
  on \<^verbatim>\<open>TokenInfo\<close> and \<^verbatim>\<open>Session\<close> (marshalling these structs cannot fail;
  unmarshalling fails on text that is no JSON object of the right shape).
\<close>

record Lib =
  sha256_Sum256 :: "string \<Rightarrow> bytes"
  jwt_SignedString :: "JwtClaims \<Rightarrow> string \<Rightarrow> string"
  json_Marshal_TokenInfo :: "TokenInfo \<Rightarrow> string"
  json_Unmarshal_TokenInfo :: "string \<Rightarrow> TokenInfo option"
  json_Marshal_Session :: "Session \<Rightarrow> string"

section \<open>Configuration (package config)\<close>

record Config =
  Timeout :: int
  ActiveTimeout :: int
  IsConcurrent :: bool
  IsShare :: bool
  TokenStyle :: string
  AutoRenew :: bool
  JwtSecretKey :: string

definition TokenStyleUUID :: string where "TokenStyleUUID = ''uuid''"
definition TokenStyleSimple :: string where "TokenStyleSimple = ''simple''"
definition TokenStyleRandom32 :: string where "TokenStyleRandom32 = ''random32''"
definition TokenStyleRandom64 :: string where "TokenStyleRandom64 = ''random64''"
definition TokenStyleRandom128 :: string where "TokenStyleRandom128 = ''random128''"
definition TokenStyleJWT :: string where "TokenStyleJWT = ''jwt''"
definition TokenStyleHash :: string where "TokenStyleHash = ''hash''"
definition TokenStyleTimestamp :: string where "TokenStyleTimestamp = ''timestamp''"
definition TokenStyleTik :: string where "TokenStyleTik = ''tik''"

definition DefaultConfig :: Config where
  "DefaultConfig =
     \<lparr>Timeout = 2592000, ActiveTimeout = - 1, IsConcurrent = True, IsShare = True,
      TokenStyle = TokenStyleUUID, AutoRenew = True, JwtSecretKey = []\<rparr>"

section \<open>Token generator (core/token/token.go)\<close>

text \<open>
  \<^verbatim>\<open>uuid.New()\<close> of \<^verbatim>\<open>google/uuid\<close> is \<^verbatim>\<open>Must(NewRandom())\<close>: it reads 16 bytes
  from the random source, sets the version and variant bits, and panics when the read
  fails. \<^verbatim>\<open>String()\<close> prints the 16 bytes in hexadecimal, in groups of 4, 2, 2, 2 and
  6 bytes.
\<close>

definition uuid_String :: "bytes \<Rightarrow> string" where
  "uuid_String u =
     EncodeToString (take 4 u) @ ''-'' @ EncodeToString (take 2 (drop 4 u)) @ ''-'' @
     EncodeToString (take 2 (drop 6 u)) @ ''-'' @ EncodeToString (take 2 (drop 8 u)) @ ''-'' @
     EncodeToString (drop 10 u)"

definition uuid_New :: "Rand \<Rightarrow> bytes go" where
  "uuid_New rnd =
     (case rand_Read (reads rnd 0) 16 of
        None \<Rightarrow> Panics
      | Some u \<Rightarrow>
          Returns (u[6 := char_of (of_char (u ! 6) mod 16 + (64::nat)),
                     8 := char_of (of_char (u ! 8) mod 64 + (128::nat))]))"

definition generateUUID :: "Rand \<Rightarrow> (error + string) go" where
  "generateUUID rnd =
     (case uuid_New rnd of
        Panics \<Rightarrow> Panics
      | Returns u \<Rightarrow> Returns (Inr (uuid_String u)))"

definition generateSimple :: "Rand \<Rightarrow> nat \<Rightarrow> (error + string) go" where
  "generateSimple rnd len =
     (case rand_Read (reads rnd 0) len of
        None \<Rightarrow> Returns (Inl RandFailed)
      | Some bs \<Rightarrow> Returns (Inr (take len (URLEncoding_EncodeToString bs))))"

definition generateJWT :: "Lib \<Rightarrow> Config \<Rightarrow> int \<Rightarrow> string \<Rightarrow> string \<Rightarrow> (error + string) go" where
  "generateJWT lib cfg now loginID device =
     (let claims = \<lparr>jc_loginId = loginID, jc_device = device, jc_iat = Unix now,
                     jc_exp = (if Timeout cfg > 0
                               then Some (Unix (now + int64 (Timeout cfg * Second)))
                               else None)\<rparr>;
          secretKey = (if JwtSecretKey cfg = [] then ''default-secret-key''
                       else JwtSecretKey cfg)
      in Returns (Inr (jwt_SignedString lib claims secretKey)))"

definition generateHash :: "Lib \<Rightarrow> Rand \<Rightarrow> int \<Rightarrow> string \<Rightarrow> string \<Rightarrow> (error + string) go" where
  "generateHash lib rnd now loginID device =
     (case rand_Read (reads rnd 0) 16 of
        None \<Rightarrow> Returns (Inl RandFailed)
      | Some randomBytes \<Rightarrow>
          (let data = loginID @ '':'' @ device @ '':'' @ Itoa now @ '':'' @
                      EncodeToString randomBytes
           in Returns (Inr (EncodeToString (sha256_Sum256 lib data)))))"

definition generateTimestamp :: "Rand \<Rightarrow> int \<Rightarrow> string \<Rightarrow> string \<Rightarrow> (error + string) go" where
  "generateTimestamp rnd now loginID device =
     (case rand_Read (reads rnd 0) 8 of
        None \<Rightarrow> Returns (Inl RandFailed)
      | Some randomBytes \<Rightarrow>
          Returns (Inr (Itoa (now div 1000000) @ ''_'' @ loginID @ ''_'' @
                        EncodeToString randomBytes)))"

definition charset :: string where
  "charset = ''0123456789ABCDEFGHIJKLMNOPQRSTUVWXYZabcdefghijklmnopqrstuvwxyz''"

text \<open>
  The loop of \<^verbatim>\<open>generateTik\<close> over the 11 positions of the result; \<open>i\<close> is the
  position, \<open>k\<close> the number of positions left. \<^verbatim>\<open>rand.Int\<close> answers below its bound 62.
\<close>

fun tik_loop :: "Rand \<Rightarrow> nat \<Rightarrow> nat \<Rightarrow> error + string" where
  "tik_loop rnd i 0 = Inr []"
| "tik_loop rnd i (Suc k) =
     (case ints rnd i of
        None \<Rightarrow> Inl RandFailed
      | Some num \<Rightarrow>
          (case tik_loop rnd (Suc i) k of
             Inl e \<Rightarrow> Inl e
           | Inr rest \<Rightarrow> Inr (charset ! (num mod 62) # rest)))"

definition generateTik :: "Rand \<Rightarrow> (error + string) go" where
  "generateTik rnd = Returns (tik_loop rnd 0 11)"

definition Generate ::
  "Lib \<Rightarrow> Config \<Rightarrow> Rand \<Rightarrow> int \<Rightarrow> string \<Rightarrow> string \<Rightarrow> (error + string) go" where
  "Generate lib cfg rnd now loginID device =
     (if TokenStyle cfg = TokenStyleUUID then generateUUID rnd
      else if TokenStyle cfg = TokenStyleSimple then generateSimple rnd 16
      else if TokenStyle cfg = TokenStyleRandom32 then generateSimple rnd 32
      else if TokenStyle cfg = TokenStyleRandom64 then generateSimple rnd 64
      else if TokenStyle cfg = TokenStyleRandom128 then generateSimple rnd 128
      else if TokenStyle cfg = TokenStyleJWT then generateJWT lib cfg now loginID device
      else if TokenStyle cfg = TokenStyleHash then generateHash lib rnd now loginID device
      else if TokenStyle cfg = TokenStyleTimestamp then generateTimestamp rnd now loginID device
      else if TokenStyle cfg = TokenStyleTik then generateTik rnd
      else generateUUID rnd)"

section \<open>Session (package session)\<close>

definition NewSession :: "string \<Rightarrow> int \<Rightarrow> Session" where
  "NewSession sid now = \<lparr>se_ID = sid, se_CreateTime = Unix now, se_Data = Map.empty\<rparr>"

text \<open>
  \<^verbatim>\<open>Session.Set\<close> updates the data and saves the whole session under
  \<^verbatim>\<open>prefix + "session:" + ID\<close> with no expiry.
\<close>

definition Session_save :: "Lib \<Rightarrow> string \<Rightarrow> Storage \<Rightarrow> int \<Rightarrow> Session \<Rightarrow> Storage" where
  "Session_save lib prefix s now sess =
     Storage_Set s now (prefix @ ''session:'' @ se_ID sess)
       (VStr (json_Marshal_Session lib sess)) 0"

definition Session_Set ::
  "Lib \<Rightarrow> string \<Rightarrow> Storage \<Rightarrow> int \<Rightarrow> Session \<Rightarrow> string \<Rightarrow> any \<Rightarrow> Session \<times> Storage" where
  "Session_Set lib prefix s now sess key v =
     (let sess' = sess\<lparr>se_Data := (se_Data sess)(key \<mapsto> v)\<rparr>
      in (sess', Session_save lib prefix s now sess'))"

section \<open>Manager (core/manager/manager.go)\<close>

record Manager =
  config :: Config
  prefix :: string

definition NewManager :: "Config \<Rightarrow> Manager" where
  "NewManager cfg = \<lparr>config = cfg, prefix = ''satoken:''\<rparr>"

definition getTokenKey :: "Manager \<Rightarrow> string \<Rightarrow> string" where
  "getTokenKey m tokenValue = prefix m @ ''token:'' @ tokenValue"

definition getAccountKey :: "Manager \<Rightarrow> string \<Rightarrow> string \<Rightarrow> string" where
  "getAccountKey m loginID device = prefix m @ ''account:'' @ loginID @ '':'' @ device"

text \<open>
  A variadic parameter \<^verbatim>\<open>device ...string\<close> is the list of the arguments passed.
\<close>

definition deviceType :: "string list \<Rightarrow> string" where
  "deviceType device = (if length device > 0 then device ! 0 else ''default'')"

definition getExpiration :: "Manager \<Rightarrow> int" where
  "getExpiration m =
     (if Timeout (config m) > 0 then int64 (Timeout (config m) * Second) else 0)"

definition saveTokenInfo ::
  "Lib \<Rightarrow> Manager \<Rightarrow> Storage \<Rightarrow> int \<Rightarrow> string \<Rightarrow> TokenInfo \<Rightarrow> int \<Rightarrow> Storage" where
  "saveTokenInfo lib m s now tokenValue info expiration' =
     Storage_Set s now (getTokenKey m tokenValue)
       (VStr (json_Marshal_TokenInfo lib info)) expiration'"

text \<open>
  \<^verbatim>\<open>data.(string)\<close> without the two-value form panics on a value that is no string.
\<close>

definition getTokenInfo ::
  "Lib \<Rightarrow> Manager \<Rightarrow> Storage \<Rightarrow> int \<Rightarrow> string \<Rightarrow> (error + TokenInfo) go" where
  "getTokenInfo lib m s now tokenValue =
     (case Storage_Get s now (getTokenKey m tokenValue) of
        Inl _ \<Rightarrow> Returns (Inl TokenNotFound)
      | Inr (VStr data) \<Rightarrow>
          (case json_Unmarshal_TokenInfo lib data of
             None \<Rightarrow> Returns (Inl InvalidTokenInfo)
           | Some info \<Rightarrow> Returns (Inr info))
      | Inr _ \<Rightarrow> Panics)"

definition IsDisable :: "Manager \<Rightarrow> Storage \<Rightarrow> int \<Rightarrow> string \<Rightarrow> bool" where
  "IsDisable m s now loginID = Storage_Exists s now (prefix m @ ''disable:'' @ loginID)"

definition Disable :: "Manager \<Rightarrow> Storage \<Rightarrow> int \<Rightarrow> string \<Rightarrow> int \<Rightarrow> Storage" where
  "Disable m s now loginID duration =
     Storage_Set s now (prefix m @ ''disable:'' @ loginID) (VStr ''1'') duration"

definition kickout ::
  "Manager \<Rightarrow> Storage \<Rightarrow> int \<Rightarrow> string \<Rightarrow> string \<Rightarrow> error option go \<times> Storage" where
  "kickout m s now loginID device =
     (case Storage_Get s now (getAccountKey m loginID device) of
        Inl _ \<Rightarrow> (Returns None, s)
      | Inr (VStr tokenValue) \<Rightarrow> (Returns None, Storage_Delete s (getTokenKey m tokenValue))
      | Inr _ \<Rightarrow> (Panics, s))"


definition Login ::
  "Lib \<Rightarrow> Manager \<Rightarrow> Storage \<Rightarrow> int \<Rightarrow> Rand \<Rightarrow> string \<Rightarrow> string list
     \<Rightarrow> (error + string) go \<times> Storage" where
  "Login lib m s now rnd loginID device =
     (let dev = deviceType device in
      if IsDisable m s now loginID then (Returns (Inl AccountDisabled), s)
      else
        (case (if \<not> IsConcurrent (config m) then kickout m s now loginID dev
               else (Returns None, s)) of
           (Panics, s1) \<Rightarrow> (Panics, s1)
         | (Returns _, s1) \<Rightarrow>
             (case Generate lib (config m) rnd now loginID dev of
                Panics \<Rightarrow> (Panics, s1)
              | Returns (Inl e) \<Rightarrow> (Returns (Inl (GenerateFailed e)), s1)
              | Returns (Inr tokenValue) \<Rightarrow>
                  (let expiration' = getExpiration m;
                       tokenInfo = \<lparr>ti_LoginID = loginID, ti_Device = dev,
                                    ti_CreateTime = Unix now, ti_ActiveTime = Unix now,
                                    ti_Tag = []\<rparr>;
                       s2 = saveTokenInfo lib m s1 now tokenValue tokenInfo expiration';
                       s3 = Storage_Set s2 now (getAccountKey m loginID dev) (VStr tokenValue)
                              expiration';
                       sess0 = NewSession loginID now;
                       (sess1, s4) = Session_Set lib (prefix m) s3 now sess0 ''loginId''
                                       (AString loginID);
                       (sess2, s5) = Session_Set lib (prefix m) s4 now sess1 ''device''
                                       (AString dev);
                       (sess3, s6) = Session_Set lib (prefix m) s5 now sess2 ''loginTime''
                                       (AInt (Unix now))
                   in (Returns (Inr tokenValue), s6)))))"

definition Logout ::
  "Manager \<Rightarrow> Storage \<Rightarrow> int \<Rightarrow> string \<Rightarrow> string list \<Rightarrow> error option go \<times> Storage" where
  "Logout m s now loginID device =
     (let accountKey = getAccountKey m loginID (deviceType device) in
      case Storage_Get s now accountKey of
        Inl _ \<Rightarrow> (Returns None, s)
      | Inr (VStr tokenValue) \<Rightarrow>
          (Returns None,
           Storage_Delete (Storage_Delete s (getTokenKey m tokenValue)) accountKey)
      | Inr _ \<Rightarrow> (Panics, s))"

definition LogoutByToken :: "Manager \<Rightarrow> Storage \<Rightarrow> string \<Rightarrow> error option \<times> Storage" where
  "LogoutByToken m s tokenValue = (None, Storage_Delete s (getTokenKey m tokenValue))"

text \<open>
  \<^verbatim>\<open>IsLogin\<close> returns its answer, the storage it leaves, and whether it has started the
  detached renewal (the \<^verbatim>\<open>go func\<close>), which runs later as \<open>renewToken\<close>.
\<close>

definition IsLogin ::
  "Lib \<Rightarrow> Manager \<Rightarrow> Storage \<Rightarrow> int \<Rightarrow> string \<Rightarrow> bool go \<times> Storage \<times> bool" where
  "IsLogin lib m s now tokenValue =
     (let renew = (AutoRenew (config m) \<and> Timeout (config m) > 0) in
      if tokenValue = [] then (Returns False, s, False)
      else if \<not> Storage_Exists s now (getTokenKey m tokenValue) then (Returns False, s, False)
      else if ActiveTimeout (config m) > 0 then
        (case getTokenInfo lib m s now tokenValue of
           Panics \<Rightarrow> (Panics, s, False)
         | Returns (Inl _) \<Rightarrow> (Returns True, s, renew)
         | Returns (Inr info) \<Rightarrow>
             if int64 (Unix now - ti_ActiveTime info) > ActiveTimeout (config m)
             then (Returns False, snd (LogoutByToken m s tokenValue), False)
             else (Returns True, s, renew))
      else (Returns True, s, renew))"

definition renewToken :: "Lib \<Rightarrow> Manager \<Rightarrow> Storage \<Rightarrow> int \<Rightarrow> string \<Rightarrow> unit go \<times> Storage" where
  "renewToken lib m s now tokenValue =
     (let expiration' = int64 (Timeout (config m) * Second);
          s1 = snd (Storage_Expire s now (getTokenKey m tokenValue) expiration')
      in case getTokenInfo lib m s1 now tokenValue of
           Panics \<Rightarrow> (Panics, s1)
         | Returns (Inl _) \<Rightarrow> (Returns (), s1)
         | Returns (Inr info) \<Rightarrow>
             (Returns (),
              saveTokenInfo lib m s1 now tokenValue (info\<lparr>ti_ActiveTime := Unix now\<rparr>)
                expiration'))"

definition GetTokenValue ::
  "Manager \<Rightarrow> Storage \<Rightarrow> int \<Rightarrow> string \<Rightarrow> string list \<Rightarrow> (error + string) go" where
  "GetTokenValue m s now loginID device =
     (case Storage_Get s now (getAccountKey m loginID (deviceType device)) of
        Inl _ \<Rightarrow> Returns (Inl TokenNotFound)
      | Inr (VStr tokenValue) \<Rightarrow> Returns (Inr tokenValue)
      | Inr _ \<Rightarrow> Panics)"

text \<open>The loop of \<^verbatim>\<open>GetTokenValueListByLoginID\<close> over the keys found.\<close>

fun collect_tokens :: "Storage \<Rightarrow> int \<Rightarrow> string list \<Rightarrow> string list go" where
  "collect_tokens s now [] = Returns []"
| "collect_tokens s now (key # keys) =
     (case Storage_Get s now key of
        Inl _ \<Rightarrow> collect_tokens s now keys
      | Inr (VStr tokenValue) \<Rightarrow>
          (case collect_tokens s now keys of
             Panics \<Rightarrow> Panics
           | Returns tokens \<Rightarrow> Returns (tokenValue # tokens))
      | Inr _ \<Rightarrow> Panics)"

definition GetTokenValueListByLoginID ::
  "Manager \<Rightarrow> Storage \<Rightarrow> int \<Rightarrow> string list \<Rightarrow> string \<Rightarrow> (error + string list) go" where
  "GetTokenValueListByLoginID m s now order loginID =
     (case collect_tokens s now
             (Storage_Keys s now order (prefix m @ ''account:'' @ loginID @ '':*'')) of
        Panics \<Rightarrow> Panics
      | Returns tokens \<Rightarrow> Returns (Inr tokens))"

text \<open>
  The loop of \<^verbatim>\<open>matchPermission\<close> over the segments of the pattern, which runs
  only when both lists have the same length (the case of a shorter \<open>permParts\<close> is never
  reached).
\<close>

fun match_parts :: "string list \<Rightarrow> string list \<Rightarrow> bool" where
  "match_parts [] permParts = True"
| "match_parts (part # parts) permParts =
     (case permParts of
        [] \<Rightarrow> False
      | q # qs \<Rightarrow> if part \<noteq> ''*'' \<and> part \<noteq> q then False else match_parts parts qs)"

definition matchPermission :: "string \<Rightarrow> string \<Rightarrow> bool" where
  "matchPermission pattern permission =
     (if pattern = ''*'' \<or> pattern = permission then True
      else if HasSuffix pattern '':*'' then HasPrefix permission (TrimSuffix pattern ''*'')
      else if Contains pattern ''*'' then
        (let parts = Split pattern (CHR '':''); permParts = Split permission (CHR '':'')
         in if length parts \<noteq> length permParts then False else match_parts parts permParts)
      else False)"

text \<open>The loop of \<^verbatim>\<open>HasPermission\<close> over the permissions of the account.\<close>

fun HasPermission_loop :: "string list \<Rightarrow> string \<Rightarrow> bool" where
  "HasPermission_loop [] permission = False"
| "HasPermission_loop (p # perms) permission =
     (if matchPermission p permission then True else HasPermission_loop perms permission)"

section \<open>Nonce manager (package security)\<close>

record NonceManager =
  nm_ttl :: int

definition NewNonceManager :: "int \<Rightarrow> NonceManager" where
  "NewNonceManager ttl = \<lparr>nm_ttl = (if ttl = 0 then 5 * Minute else ttl)\<rparr>"

definition nonceKey :: "string \<Rightarrow> string" where
  "nonceKey nonce = ''satoken:nonce:'' @ nonce"

definition Nonce_Generate ::
  "NonceManager \<Rightarrow> Storage \<Rightarrow> int \<Rightarrow> Rand \<Rightarrow> (error + string) \<times> Storage" where
  "Nonce_Generate nm s now rnd =
     (case rand_Read (reads rnd 0) 32 of
        None \<Rightarrow> (Inl RandFailed, s)
      | Some bs \<Rightarrow>
          (let nonce = EncodeToString bs
           in (Inr nonce, Storage_Set s now (nonceKey nonce) (VInt (Unix now)) (nm_ttl nm))))"

text \<open>
  \<^verbatim>\<open>Verify\<close> holds the manager's mutex from the existence check to the deletion; the
  model runs one call at a time.
\<close>

definition Nonce_Verify :: "NonceManager \<Rightarrow> Storage \<Rightarrow> int \<Rightarrow> string \<Rightarrow> bool \<times> Storage" where
  "Nonce_Verify nm s now nonce =
     (if nonce = [] then (False, s)
      else if \<not> Storage_Exists s now (nonceKey nonce) then (False, s)
      else (True, Storage_Delete s (nonceKey nonce)))"

section \<open>OAuth2 server (package oauth2)\<close>

record OAuth2Server =
  clients :: "string \<rightharpoonup> Client"
  codeExpiration :: int
  tokenExpiration :: int

definition NewOAuth2Server :: OAuth2Server where
  "NewOAuth2Server =
     \<lparr>clients = Map.empty, codeExpiration = 10 * Minute, tokenExpiration = 2 * Hour\<rparr>"

definition RegisterClient :: "OAuth2Server \<Rightarrow> Client \<Rightarrow> OAuth2Server" where
  "RegisterClient srv client = srv\<lparr>clients := (clients srv)(cl_ClientID client \<mapsto> client)\<rparr>"

definition GetClient :: "OAuth2Server \<Rightarrow> string \<Rightarrow> error + Client" where
  "GetClient srv clientID =
     (case clients srv clientID of
        None \<Rightarrow> Inl ClientNotFound
      | Some client \<Rightarrow> Inr client)"

definition codeKey :: "string \<Rightarrow> string" where
  "codeKey code = ''satoken:oauth2:code:'' @ code"

definition tokenKey :: "string \<Rightarrow> string" where
  "tokenKey accessToken = ''satoken:oauth2:token:'' @ accessToken"

definition refreshKey :: "string \<Rightarrow> string" where
  "refreshKey refreshToken = ''satoken:oauth2:refresh:'' @ refreshToken"

definition GenerateAuthorizationCode ::
  "OAuth2Server \<Rightarrow> Storage \<Rightarrow> int \<Rightarrow> Rand \<Rightarrow> string \<Rightarrow> string \<Rightarrow> string \<Rightarrow> string list
     \<Rightarrow> (error + AuthorizationCode) \<times> Storage" where
  "GenerateAuthorizationCode srv s now rnd clientID redirectURI userID scopes =
     (case GetClient srv clientID of
        Inl e \<Rightarrow> (Inl e, s)
      | Inr client \<Rightarrow>
          if \<not> list_ex (\<lambda>uri. uri = redirectURI) (cl_RedirectURIs client)
          then (Inl InvalidRedirectURI, s)
          else
            (case rand_Read (reads rnd 0) 32 of
               None \<Rightarrow> (Inl RandFailed, s)
             | Some codeBytes \<Rightarrow>
                 (let code = EncodeToString codeBytes;
                      authCode = \<lparr>ac_Code = code, ac_ClientID = clientID,
                                  ac_RedirectURI = redirectURI, ac_UserID = userID,
                                  ac_Scopes = scopes, ac_CreateTime = Unix now,
                                  ac_ExpiresIn = Seconds (codeExpiration srv),
                                  ac_Used = False\<rparr>
                  in (Inr authCode,
                      Storage_Set s now (codeKey code) (VCode authCode) (codeExpiration srv)))))"

definition generateAccessToken ::
  "OAuth2Server \<Rightarrow> Storage \<Rightarrow> int \<Rightarrow> Rand \<Rightarrow> string \<Rightarrow> string \<Rightarrow> string list
     \<Rightarrow> (error + AccessToken) \<times> Storage" where
  "generateAccessToken srv s now rnd userID clientID scopes =
     (case rand_Read (reads rnd 0) 32 of
        None \<Rightarrow> (Inl RandFailed, s)
      | Some tokenBytes \<Rightarrow>
          (case rand_Read (reads rnd 1) 32 of
             None \<Rightarrow> (Inl RandFailed, s)
           | Some refreshBytes \<Rightarrow>
               (let accessToken = EncodeToString tokenBytes;
                    refreshToken = EncodeToString refreshBytes;
                    token = \<lparr>at_Token = accessToken, at_TokenType = ''Bearer'',
                             at_ExpiresIn = Seconds (tokenExpiration srv),
                             at_RefreshToken = refreshToken, at_Scopes = scopes,
                             at_UserID = userID, at_ClientID = clientID\<rparr>;
                    s1 = Storage_Set s now (tokenKey accessToken) (VTok token)
                           (tokenExpiration srv);
                    s2 = Storage_Set s1 now (refreshKey refreshToken) (VTok token)
                           (30 * 24 * Hour)
                in (Inr token, s2))))"

definition ExchangeCodeForToken ::
  "OAuth2Server \<Rightarrow> Storage \<Rightarrow> int \<Rightarrow> Rand \<Rightarrow> string \<Rightarrow> string \<Rightarrow> string \<Rightarrow> string
     \<Rightarrow> (error + AccessToken) \<times> Storage" where
  "ExchangeCodeForToken srv s now rnd code clientID clientSecret redirectURI =
     (case GetClient srv clientID of
        Inl e \<Rightarrow> (Inl e, s)
      | Inr client \<Rightarrow>
          if cl_ClientSecret client \<noteq> clientSecret then (Inl InvalidClientCredentials, s)
          else
            (case Storage_Get s now (codeKey code) of
               Inl _ \<Rightarrow> (Inl InvalidAuthorizationCode, s)
             | Inr (VCode authCode) \<Rightarrow>
                 if ac_Used authCode then (Inl CodeAlreadyUsed, s)
                 else if ac_ClientID authCode \<noteq> clientID then (Inl ClientMismatch, s)
                 else if ac_RedirectURI authCode \<noteq> redirectURI
                   then (Inl RedirectURIMismatch, s)
                 else if Unix now > int64 (ac_CreateTime authCode + ac_ExpiresIn authCode)
                   then (Inl CodeExpired, Storage_Delete s (codeKey code))
                 else
                   generateAccessToken srv
                     (Storage_Set s now (codeKey code) (VCode (authCode\<lparr>ac_Used := True\<rparr>))
                        Minute)
                     now rnd (ac_UserID authCode) (ac_ClientID authCode) (ac_Scopes authCode)
             | Inr _ \<Rightarrow> (Inl InvalidCodeData, s)))"

definition ValidateAccessToken :: "Storage \<Rightarrow> int \<Rightarrow> string \<Rightarrow> error + AccessToken" where
  "ValidateAccessToken s now tokenString =
     (case Storage_Get s now (tokenKey tokenString) of
        Inl _ \<Rightarrow> Inl InvalidAccessToken
      | Inr (VTok token) \<Rightarrow> Inr token
      | Inr _ \<Rightarrow> Inl InvalidTokenData)"

definition RefreshAccessToken ::
  "OAuth2Server \<Rightarrow> Storage \<Rightarrow> int \<Rightarrow> Rand \<Rightarrow> string \<Rightarrow> string \<Rightarrow> string
     \<Rightarrow> (error + AccessToken) \<times> Storage" where
  "RefreshAccessToken srv s now rnd refreshToken clientID clientSecret =
     (case GetClient srv clientID of
        Inl e \<Rightarrow> (Inl e, s)
      | Inr client \<Rightarrow>
          if cl_ClientSecret client \<noteq> clientSecret then (Inl InvalidClientCredentials, s)
          else
            (case Storage_Get s now (refreshKey refreshToken) of
               Inl _ \<Rightarrow> (Inl InvalidRefreshToken, s)
             | Inr (VTok oldToken) \<Rightarrow>
                 if at_ClientID oldToken \<noteq> clientID then (Inl ClientMismatch, s)
                 else
                   generateAccessToken srv (Storage_Delete s (tokenKey (at_Token oldToken)))
                     now rnd (at_UserID oldToken) (at_ClientID oldToken) (at_Scopes oldToken)
             | Inr _ \<Rightarrow> (Inl InvalidRefreshTokenData, s)))"

definition RevokeToken :: "Storage \<Rightarrow> int \<Rightarrow> string \<Rightarrow> error option \<times> Storage" where
  "RevokeToken s now tokenString =
     (case Storage_Get s now (tokenKey tokenString) of
        Inl e \<Rightarrow> (Some e, s)
      | Inr (VTok token) \<Rightarrow>
          (None,
           Storage_Delete
             (if at_RefreshToken token \<noteq> []
              then Storage_Delete s (refreshKey (at_RefreshToken token)) else s)
             (tokenKey tokenString))
      | Inr _ \<Rightarrow> (None, Storage_Delete s (tokenKey tokenString)))"

section \<open>An instance of the library parameters\<close>

text \<open>
  The theorems below hold for every value of the library parameters. Where a theorem is
  applied to a concrete input, the parameters are instantiated as follows; on the text
  \<^verbatim>\<open>{}\<close> the instance of \<^verbatim>\<open>json.Unmarshal\<close> answers as \<^verbatim>\<open>encoding/json\<close> does,
  with the zero \<^verbatim>\<open>TokenInfo\<close>.
\<close>

definition zero_TokenInfo :: TokenInfo where
  "zero_TokenInfo =
     \<lparr>ti_LoginID = [], ti_Device = [], ti_CreateTime = 0, ti_ActiveTime = 0, ti_Tag = []\<rparr>"

definition lib_instance :: Lib where
  "lib_instance =
     \<lparr>sha256_Sum256 = (\<lambda>data. replicate 32 (CHR 0x00)),
      jwt_SignedString = (\<lambda>claims key. ''h.c.s''),
      json_Marshal_TokenInfo = (\<lambda>info. ''{}''),
      json_Unmarshal_TokenInfo = (\<lambda>data. if data = ''{}'' then Some zero_TokenInfo else None),
      json_Marshal_Session = (\<lambda>sess. ''{}'')\<rparr>"

section \<open>Concrete inputs\<close>



definition no_rand :: Rand where
  "no_rand = \<lparr>reads = (\<lambda>k. None), ints = (\<lambda>k. None)\<rparr>"

text \<open>
  A manager with the default configuration but Tik-style tokens, a random source that
  answers every \<^verbatim>\<open>rand.Int\<close> with the same number, and a run from the empty storage:
  account \<^verbatim>\<open>u\<close> logs in twice on the default device (concurrent login is allowed by
  default), then logs out twice.
\<close>

definition tik_manager :: Manager where
  "tik_manager = NewManager (DefaultConfig\<lparr>TokenStyle := TokenStyleTik\<rparr>)"

definition rand_tik :: "nat \<Rightarrow> Rand" where
  "rand_tik c = \<lparr>reads = (\<lambda>k. None), ints = (\<lambda>k. Some c)\<rparr>"

definition first_login :: "(error + string) go \<times> Storage" where
  "first_login = Login lib_instance tik_manager NewStorage 0 (rand_tik 0) ''u'' []"

definition second_login :: "(error + string) go \<times> Storage" where
  "second_login = Login lib_instance tik_manager (snd first_login) Second (rand_tik 1) ''u'' []"

definition first_logout :: "error option go \<times> Storage" where
  "first_logout = Logout tik_manager (snd second_login) (2 * Second) ''u'' []"

definition second_logout :: "error option go \<times> Storage" where
  "second_logout = Logout tik_manager (snd first_logout) (3 * Second) ''u'' []"

text \<open>The keys of the storage after the second login, in one iteration order.\<close>

definition keys_after_second_login :: "string list" where
  "keys_after_second_login =
     [''satoken:token:00000000000'', ''satoken:account:u:default'', ''satoken:session:u'',
      ''satoken:token:11111111111'']"

text \<open>
  An OAuth2 server with one registered client, a random source whose \<open>k\<close>-th read
  delivers the single byte \<open>n + k\<close> (the rest of the buffer stays zero), and a run from the
  empty storage: a code is issued at instant 0 and exchanged after one second; the
  exchange is repeated after 30 seconds and after two minutes; the refresh token of the
  first pair is used twice.
\<close>

definition client0 :: Client where
  "client0 =
     \<lparr>cl_ClientID = ''app'', cl_ClientSecret = ''secret'',
      cl_RedirectURIs = [''https://app/cb''],
      cl_GrantTypes = [''authorization_code'', ''refresh_token''], cl_Scopes = [''read'']\<rparr>"

definition server0 :: OAuth2Server where
  "server0 = RegisterClient NewOAuth2Server client0"

definition rand_from :: "nat \<Rightarrow> Rand" where
  "rand_from n = \<lparr>reads = (\<lambda>k. Some [char_of (n + k)]), ints = (\<lambda>k. None)\<rparr>"

definition issued :: "(error + AuthorizationCode) \<times> Storage" where
  "issued =
     GenerateAuthorizationCode server0 NewStorage 0 (rand_from 0) ''app'' ''https://app/cb''
       ''user1'' [''read'']"

definition code0 :: string where
  "code0 = ''0000000000000000000000000000000000000000000000000000000000000000''"

definition first_exchange :: "(error + AccessToken) \<times> Storage" where
  "first_exchange =
     ExchangeCodeForToken server0 (snd issued) Second (rand_from 1) code0 ''app'' ''secret''
       ''https://app/cb''"

definition late_exchange :: "(error + AccessToken) \<times> Storage" where
  "late_exchange =
     ExchangeCodeForToken server0 (snd first_exchange) (120 * Second) (rand_from 3) code0 ''app''
       ''secret'' ''https://app/cb''"

definition replay_exchange :: "(error + AccessToken) \<times> Storage" where
  "replay_exchange =
     ExchangeCodeForToken server0 (snd first_exchange) (30 * Second) (rand_from 3) code0 ''app''
       ''secret'' ''https://app/cb''"

definition token1 :: AccessToken where
  "token1 =
     \<lparr>at_Token = ''0100000000000000000000000000000000000000000000000000000000000000'',
      at_TokenType = ''Bearer'', at_ExpiresIn = 7200,
      at_RefreshToken = ''0200000000000000000000000000000000000000000000000000000000000000'',
      at_Scopes = [''read''], at_UserID = ''user1'', at_ClientID = ''app''\<rparr>"

definition token2 :: AccessToken where
  "token2 =
     \<lparr>at_Token = ''0300000000000000000000000000000000000000000000000000000000000000'',
      at_TokenType = ''Bearer'', at_ExpiresIn = 7200,
      at_RefreshToken = ''0400000000000000000000000000000000000000000000000000000000000000'',
      at_Scopes = [''read''], at_UserID = ''user1'', at_ClientID = ''app''\<rparr>"

definition token3 :: AccessToken where
  "token3 =
     \<lparr>at_Token = ''0500000000000000000000000000000000000000000000000000000000000000'',
      at_TokenType = ''Bearer'', at_ExpiresIn = 7200,
      at_RefreshToken = ''0600000000000000000000000000000000000000000000000000000000000000'',
      at_Scopes = [''read''], at_UserID = ''user1'', at_ClientID = ''app''\<rparr>"

definition first_refresh :: "(error + AccessToken) \<times> Storage" where
  "first_refresh =
     RefreshAccessToken server0 (snd first_exchange) (2 * Second) (rand_from 3)
       (at_RefreshToken token1) ''app'' ''secret''"

definition second_refresh :: "(error + AccessToken) \<times> Storage" where
  "second_refresh =
     RefreshAccessToken server0 (snd first_refresh) (3 * Second) (rand_from 5)
       (at_RefreshToken token1) ''app'' ''secret''"

section \<open>Properties of the in-memory storage\<close>

text \<open>
  Claim C8. A key stored with \<^verbatim>\<open>Set(key, value, 0)\<close> never expires: at every instant
  \<open>later\<close>, \<^verbatim>\<open>Get\<close> returns the value, \<^verbatim>\<open>Exists\<close> is true, \<^verbatim>\<open>TTL\<close> reports
  \<open>-1\<close> second with no error, and a round of the cleanup goroutine keeps the item. The
  \<^verbatim>\<open>TTL\<close> of an absent key and of an expired key is \<open>-2\<close> seconds.
\<close>

theorem memory_sentinels:
  "Storage_Get (Storage_Set s now key v 0) later key = Inr v
   \<and> Storage_Exists (Storage_Set s now key v 0) later key
   \<and> Storage_TTL (Storage_Set s now key v 0) later key = (- 1 * Second, None)
   \<and> cleanup (Storage_Set s now key v 0) later key = Storage_Set s now key v 0 key
   \<and> (s key = None \<longrightarrow> fst (Storage_TTL s later key) = - 2 * Second)
   \<and> (\<forall>i. s key = Some i \<and> isExpired i later
          \<longrightarrow> fst (Storage_TTL s later key) = - 2 * Second)"
  by (auto simp: Storage_Get_def Storage_Set_def Storage_Exists_def Storage_TTL_def cleanup_def
        isExpired_def Let_def split: if_splits)

theorem memory_sentinels_witness:
  "NewStorage ''k'' = None
   \<and> fst (Storage_TTL NewStorage (5 * Second) ''k'') = - 2 * Second
   \<and> Storage_Set NewStorage 0 ''k'' (VStr ''v'') Second ''k''
        = Some \<lparr>val_of = VStr ''v'', expiration = 1\<rparr>
   \<and> isExpired \<lparr>val_of = VStr ''v'', expiration = 1\<rparr> (5 * Second)
   \<and> fst (Storage_TTL (Storage_Set NewStorage 0 ''k'' (VStr ''v'') Second) (5 * Second) ''k'')
        = - 2 * Second"
  using memory_sentinels [of NewStorage 0 "''k''" "VStr ''v''" "5 * Second"]
    memory_sentinels [of "Storage_Set NewStorage 0 ''k'' (VStr ''v'') Second" 0 "''k''"
      "VStr ''v''" "5 * Second"]
  by (simp add: NewStorage_def Storage_Set_def isExpired_def Unix_def Second_def)

section \<open>Properties of the permission matcher\<close>

lemma HasPrefix_iff: "HasPrefix s p \<longleftrightarrow> (\<exists>r. s = p @ r)"
  unfolding HasPrefix_def
  by (metis append_eq_conv_conj append_take_drop_id)

lemma HasSuffix_iff: "HasSuffix s x \<longleftrightarrow> (\<exists>p. s = p @ x)"
proof
  assume "HasSuffix s x"
  then have "s = take (length s - length x) s @ x"
    unfolding HasSuffix_def by (metis append_take_drop_id)
  then show "\<exists>p. s = p @ x" ..
next
  assume "\<exists>p. s = p @ x"
  then show "HasSuffix s x" unfolding HasSuffix_def by auto
qed

lemma Contains_star: "Contains s ''*'' \<longleftrightarrow> CHR ''*'' \<in> set s"
  by (induction s) (auto simp: HasPrefix_def)

lemma TrimSuffix_star: "HasSuffix P '':*'' \<Longrightarrow> TrimSuffix P ''*'' = butlast P"
  by (auto simp: HasSuffix_iff TrimSuffix_def butlast_append)

lemma match_parts_iff:
  "length ps = length qs \<Longrightarrow>
   match_parts ps qs \<longleftrightarrow> (\<forall>i<length ps. ps ! i \<noteq> ''*'' \<longrightarrow> ps ! i = qs ! i)"
proof (induction ps qs rule: list_induct2)
  case Nil
  then show ?case by simp
next
  case (Cons p ps q qs)
  then show ?case
    by (auto simp: nth_Cons split: nat.splits)
qed

text \<open>
  \<open>Split\<close> cuts a string at every occurrence of the separator: one more piece than
  occurrences, and no piece contains the separator.
\<close>

lemma Split_nonempty: "Split s c \<noteq> []"
  by (induction s) (auto split: list.splits)

lemma Split_length: "length (Split s c) = Suc (count_list s c)"
  by (induction s) (auto split: list.splits simp: Split_nonempty)

lemma Split_pieces: "p \<in> set (Split s c) \<Longrightarrow> c \<notin> set p"
  by (induction s arbitrary: p) (auto split: list.splits if_splits)

text \<open>
  Claim C3. \<^verbatim>\<open>matchPermission\<close> follows the four rules. (1) A pattern \<open>P\<close> equal to
  \<^verbatim>\<open>*\<close> or to the query \<open>Q\<close> matches. (2) A pattern ending in \<^verbatim>\<open>:*\<close> matches exactly
  the queries that start with the pattern less its last character. (3) A pattern that
  contains \<^verbatim>\<open>*\<close> elsewhere matches exactly when pattern and query split on \<^verbatim>\<open>:\<close> into
  equally many segments and every segment of the pattern other than \<^verbatim>\<open>*\<close> equals the
  query's segment at the same position. (4) A pattern without \<^verbatim>\<open>*\<close> matches its equal
  only. The permission list \<^verbatim>\<open>{"user:*"}\<close> grants \<^verbatim>\<open>user:write\<close> and not
  \<^verbatim>\<open>order:write\<close>; \<^verbatim>\<open>{"user:*:view"}\<close> grants \<^verbatim>\<open>user:profile:view\<close> and not
  \<^verbatim>\<open>user:view\<close>.
\<close>

theorem matchPermission_rules:
  "(P = ''*'' \<or> P = Q \<longrightarrow> matchPermission P Q)
   \<and> ((\<exists>p. P = p @ '':*'') \<longrightarrow> (matchPermission P Q \<longleftrightarrow> (\<exists>r. Q = butlast P @ r)))
   \<and> (P \<noteq> ''*'' \<and> (\<nexists>p. P = p @ '':*'') \<and> CHR ''*'' \<in> set P \<longrightarrow>
        (matchPermission P Q \<longleftrightarrow>
           length (Split P (CHR '':'')) = length (Split Q (CHR '':'')) \<and>
           (\<forall>i<length (Split P (CHR '':'')).
              Split P (CHR '':'') ! i \<noteq> ''*'' \<longrightarrow>
              Split P (CHR '':'') ! i = Split Q (CHR '':'') ! i)))
   \<and> (CHR ''*'' \<notin> set P \<longrightarrow> (matchPermission P Q \<longleftrightarrow> P = Q))
   \<and> HasPermission_loop [''user:*''] ''user:write''
   \<and> \<not> HasPermission_loop [''user:*''] ''order:write''
   \<and> HasPermission_loop [''user:*:view''] ''user:profile:view''
   \<and> \<not> HasPermission_loop [''user:*:view''] ''user:view''"
proof (intro conjI)
  show "P = ''*'' \<or> P = Q \<longrightarrow> matchPermission P Q"
    by (auto simp: matchPermission_def)
  show "(\<exists>p. P = p @ '':*'') \<longrightarrow> (matchPermission P Q \<longleftrightarrow> (\<exists>r. Q = butlast P @ r))"
  proof
    assume a: "\<exists>p. P = p @ '':*''"
    then have s: "HasSuffix P '':*''" by (simp add: HasSuffix_iff)
    have ne: "P \<noteq> ''*''" using a by auto
    show "matchPermission P Q \<longleftrightarrow> (\<exists>r. Q = butlast P @ r)"
    proof (cases "P = Q")
      case True
      have "P \<noteq> []" using a by auto
      then have "Q = butlast P @ [last P]" using True by simp
      then have "\<exists>r. Q = butlast P @ r" ..
      then show ?thesis using True by (simp add: matchPermission_def)
    next
      case False
      then show ?thesis using s ne
        by (simp add: matchPermission_def TrimSuffix_star HasPrefix_iff)
    qed
  qed
  show "P \<noteq> ''*'' \<and> (\<nexists>p. P = p @ '':*'') \<and> CHR ''*'' \<in> set P \<longrightarrow>
        (matchPermission P Q \<longleftrightarrow>
           length (Split P (CHR '':'')) = length (Split Q (CHR '':'')) \<and>
           (\<forall>i<length (Split P (CHR '':'')).
              Split P (CHR '':'') ! i \<noteq> ''*'' \<longrightarrow>
              Split P (CHR '':'') ! i = Split Q (CHR '':'') ! i))"
  proof
    assume a: "P \<noteq> ''*'' \<and> (\<nexists>p. P = p @ '':*'') \<and> CHR ''*'' \<in> set P"
    then have s: "\<not> HasSuffix P '':*''" and c: "Contains P ''*''"
      by (simp_all add: HasSuffix_iff Contains_star)
    show "matchPermission P Q \<longleftrightarrow>
           length (Split P (CHR '':'')) = length (Split Q (CHR '':'')) \<and>
           (\<forall>i<length (Split P (CHR '':'')).
              Split P (CHR '':'') ! i \<noteq> ''*'' \<longrightarrow>
              Split P (CHR '':'') ! i = Split Q (CHR '':'') ! i)"
    proof (cases "P = Q")
      case True
      then show ?thesis by (simp add: matchPermission_def)
    next
      case False
      then show ?thesis using a s c match_parts_iff
        by (auto simp: matchPermission_def Let_def)
    qed
  qed
  show "CHR ''*'' \<notin> set P \<longrightarrow> (matchPermission P Q \<longleftrightarrow> P = Q)"
    by (auto simp: matchPermission_def Contains_star HasSuffix_iff)
  show "HasPermission_loop [''user:*''] ''user:write''"
    by (simp add: matchPermission_def HasSuffix_def HasPrefix_def TrimSuffix_def)
  show "\<not> HasPermission_loop [''user:*''] ''order:write''"
    by (simp add: matchPermission_def HasSuffix_def HasPrefix_def TrimSuffix_def)
  show "HasPermission_loop [''user:*:view''] ''user:profile:view''"
    by (simp add: matchPermission_def HasSuffix_def HasPrefix_def TrimSuffix_def)
  show "\<not> HasPermission_loop [''user:*:view''] ''user:view''"
    by (simp add: matchPermission_def HasSuffix_def HasPrefix_def TrimSuffix_def)
qed

theorem matchPermission_rules_witness:
  "(\<exists>p. ''user:*'' = p @ '':*'') \<and> matchPermission ''user:*'' ''user:write''
   \<and> ''user:*:view'' \<noteq> ''*'' \<and> (\<nexists>p. ''user:*:view'' = p @ '':*'')
   \<and> CHR ''*'' \<in> set ''user:*:view''
   \<and> matchPermission ''user:*:view'' ''user:profile:view''
   \<and> \<not> matchPermission ''user:*:view'' ''user:view''
   \<and> CHR ''*'' \<notin> set ''user:read'' \<and> \<not> matchPermission ''user:read'' ''user:write''
   \<and> matchPermission ''*'' ''order:write''"
proof -
  have h2: "\<exists>p. ''user:*'' = p @ '':*''"
    by (rule exI [of _ "''user''"]) simp
  have r2: "\<exists>r. ''user:write'' = butlast ''user:*'' @ r"
    by (rule exI [of _ "''write''"]) simp
  have m2: "matchPermission ''user:*'' ''user:write''"
    using matchPermission_rules [of "''user:*''" "''user:write''"] h2 r2 by blast
  have h3: "\<nexists>p. ''user:*:view'' = p @ '':*''"
    using HasSuffix_iff [of "''user:*:view''" "'':*''"] by (simp add: HasSuffix_def)
  have h3': "''user:*:view'' \<noteq> ''*'' \<and> CHR ''*'' \<in> set ''user:*:view''"
    by simp
  have s3: "\<forall>i<3. [''user'', ''*'', ''view''] ! i \<noteq> ''*'' \<longrightarrow>
              [''user'', ''*'', ''view''] ! i = [''user'', ''profile'', ''view''] ! i"
    by (simp add: less_Suc_eq numeral_3_eq_3)
  have m3: "matchPermission ''user:*:view'' ''user:profile:view''"
    using matchPermission_rules [of "''user:*:view''" "''user:profile:view''"] h3 h3' s3
    by simp
  have n3: "\<not> matchPermission ''user:*:view'' ''user:view''"
    using matchPermission_rules [of "''user:*:view''" "''user:view''"] h3 h3'
    by simp
  have n4: "\<not> matchPermission ''user:read'' ''user:write''"
    using matchPermission_rules [of "''user:read''" "''user:write''"] by simp
  have m1: "matchPermission ''*'' ''order:write''"
    using matchPermission_rules [of "''*''" "''order:write''"] by simp
  show ?thesis using h2 m2 h3 h3' m3 n3 n4 m1 by simp
qed

section \<open>Properties of the random reads and the hexadecimal encoding\<close>

lemma rand_Read_length: "rand_Read answer n = Some bs \<Longrightarrow> length bs = n"
  by (auto simp: rand_Read_def split: option.splits)

lemma EncodeToString_length: "length (EncodeToString bs) = 2 * length bs"
  by (induction bs) (auto simp: EncodeToString_def)

lemma EncodeToString_32_nonempty:
  "rand_Read answer 32 = Some bs \<Longrightarrow> EncodeToString bs \<noteq> []"
  using rand_Read_length [of answer 32 bs] EncodeToString_length [of bs] by auto

section \<open>Properties of the nonce manager\<close>

lemma Nonce_Generate_nonempty:
  "Nonce_Generate nm s g rnd = (Inr N, s1) \<Longrightarrow> N \<noteq> []"
  by (auto simp: Nonce_Generate_def Let_def EncodeToString_32_nonempty split: option.splits)

lemma Nonce_Generate_stored:
  "Nonce_Generate nm s g rnd = (Inr N, s1) \<Longrightarrow>
   s1 = Storage_Set s g (nonceKey N) (VInt (Unix g)) (nm_ttl nm)"
  by (auto simp: Nonce_Generate_def Let_def split: option.splits)

text \<open>
  Claim C7. Let \<^verbatim>\<open>Generate()\<close> at instant \<open>g\<close> return the nonce \<open>N\<close>, and let \<open>v\<close> be
  an instant within the nonce's time to live (a manager whose TTL is not positive stores
  nonces that never expire). Then \<^verbatim>\<open>Verify(N)\<close> at \<open>v\<close> returns true and removes the
  stored nonce, and every later \<^verbatim>\<open>Verify(N)\<close> returns false and changes nothing.
  \<^verbatim>\<open>Verify\<close> returns false, and changes nothing, for the empty string, for a value with
  no stored record (never generated, or consumed) and for a value whose record has
  expired.
\<close>

theorem nonce_single_use:
  assumes gen: "Nonce_Generate nm s g rnd = (Inr N, s1)"
    and live: "0 < nm_ttl nm \<longrightarrow> Unix v \<le> Unix (g + nm_ttl nm)"
  shows "fst (Nonce_Verify nm s1 v N) = True
    \<and> snd (Nonce_Verify nm s1 v N) (nonceKey N) = None
    \<and> (\<forall>v'. Nonce_Verify nm (snd (Nonce_Verify nm s1 v N)) v' N
              = (False, snd (Nonce_Verify nm s1 v N)))
    \<and> Nonce_Verify nm s0 v [] = (False, s0)
    \<and> (s0 (nonceKey x) = None \<longrightarrow> Nonce_Verify nm s0 v x = (False, s0))
    \<and> (\<forall>i. s0 (nonceKey x) = Some i \<and> isExpired i v
           \<longrightarrow> Nonce_Verify nm s0 v x = (False, s0))"
proof -
  have ne: "N \<noteq> []" using gen by (rule Nonce_Generate_nonempty)
  have s1: "s1 = Storage_Set s g (nonceKey N) (VInt (Unix g)) (nm_ttl nm)"
    using gen by (rule Nonce_Generate_stored)
  have ex: "Storage_Exists s1 v (nonceKey N)"
    using live by (auto simp: s1 Storage_Exists_def Storage_Set_def isExpired_def Let_def)
  have first: "Nonce_Verify nm s1 v N = (True, Storage_Delete s1 (nonceKey N))"
    using ne ex by (simp add: Nonce_Verify_def)
  have gone: "\<And>v'. \<not> Storage_Exists (Storage_Delete s1 (nonceKey N)) v' (nonceKey N)"
    by (simp add: Storage_Exists_def Storage_Delete_def)
  show ?thesis
    using first gone
    by (auto simp: Nonce_Verify_def Storage_Delete_def Storage_Exists_def)
qed

theorem nonce_single_use_witness:
  "Nonce_Generate (NewNonceManager 0) NewStorage 0 \<lparr>reads = (\<lambda>k. Some []), ints = (\<lambda>k. None)\<rparr>
     = (Inr (EncodeToString (replicate 32 (CHR 0x00))),
        Storage_Set NewStorage 0 (nonceKey (EncodeToString (replicate 32 (CHR 0x00))))
          (VInt 0) (5 * Minute))
   \<and> Unix (60 * Second) \<le> Unix (0 + nm_ttl (NewNonceManager 0))
   \<and> fst (Nonce_Verify (NewNonceManager 0)
        (Storage_Set NewStorage 0 (nonceKey (EncodeToString (replicate 32 (CHR 0x00))))
          (VInt 0) (5 * Minute))
        (60 * Second) (EncodeToString (replicate 32 (CHR 0x00)))) = True
   \<and> NewStorage (nonceKey ''abc'') = None
   \<and> Nonce_Verify (NewNonceManager 0) NewStorage (60 * Second) ''abc'' = (False, NewStorage)"
proof -
  let ?N = "EncodeToString (replicate 32 (CHR 0x00))"
  let ?s1 = "Storage_Set NewStorage 0 (nonceKey ?N) (VInt 0) (5 * Minute)"
  let ?rnd = "\<lparr>reads = (\<lambda>k. Some []), ints = (\<lambda>k. None)\<rparr>"
  have g: "Nonce_Generate (NewNonceManager 0) NewStorage 0 ?rnd = (Inr ?N, ?s1)"
    by (simp add: Nonce_Generate_def rand_Read_def NewNonceManager_def Unix_def Let_def)
  have l: "Unix (60 * Second) \<le> Unix (0 + nm_ttl (NewNonceManager 0))"
    by (simp add: Unix_def NewNonceManager_def Minute_def Second_def)
  have e: "NewStorage (nonceKey ''abc'') = None"
    by (simp add: NewStorage_def)
  show ?thesis
    using g l e nonce_single_use [OF g, of "60 * Second" NewStorage "''abc''"]
    by simp
qed

section \<open>Properties of the manager\<close>

lemma int64_id: "- (2 ^ 63) \<le> x \<Longrightarrow> x < 2 ^ 63 \<Longrightarrow> int64 x = x"
  by (simp add: int64_def)

text \<open>
  Claim C5. \<^verbatim>\<open>IsLogin(t)\<close> returns false, leaving the storage as it is and starting no
  renewal, when \<open>t\<close> is the empty string and when no live TokenInfo record exists for
  \<open>t\<close> (no record, or an expired one). When an inactivity timeout is configured
  (\<^verbatim>\<open>ActiveTimeout > 0\<close>), the record of \<open>t\<close> is live and holds the TokenInfo \<open>info\<close>,
  and \<open>now - ActiveTime\<close> exceeds the timeout, \<^verbatim>\<open>IsLogin(t)\<close> returns false and leaves
  the storage that \<^verbatim>\<open>LogoutByToken(t)\<close> leaves: the one without the record of \<open>t\<close>.
\<close>

theorem IsLogin_false:
  "IsLogin lib m s now [] = (Returns False, s, False)
   \<and> (s (getTokenKey m t) = None \<longrightarrow> IsLogin lib m s now t = (Returns False, s, False))
   \<and> (\<forall>i. s (getTokenKey m t) = Some i \<and> isExpired i now
          \<longrightarrow> IsLogin lib m s now t = (Returns False, s, False))
   \<and> (\<forall>i d info.
         t \<noteq> [] \<and> s (getTokenKey m t) = Some i \<and> \<not> isExpired i now \<and> val_of i = VStr d
         \<and> json_Unmarshal_TokenInfo lib d = Some info
         \<and> 0 < ActiveTimeout (config m)
         \<and> ActiveTimeout (config m) < Unix now - ti_ActiveTime info
         \<and> Unix now - ti_ActiveTime info < 2 ^ 63
          \<longrightarrow> IsLogin lib m s now t = (Returns False, Storage_Delete s (getTokenKey m t), False)
              \<and> LogoutByToken m s t = (None, Storage_Delete s (getTokenKey m t))
              \<and> Storage_Delete s (getTokenKey m t) (getTokenKey m t) = None)"
proof (intro conjI allI impI)
  show "IsLogin lib m s now [] = (Returns False, s, False)"
    by (simp add: IsLogin_def)
next
  assume "s (getTokenKey m t) = None"
  then show "IsLogin lib m s now t = (Returns False, s, False)"
    by (simp add: IsLogin_def Storage_Exists_def Let_def)
next
  fix i
  assume "s (getTokenKey m t) = Some i \<and> isExpired i now"
  then show "IsLogin lib m s now t = (Returns False, s, False)"
    by (simp add: IsLogin_def Storage_Exists_def Let_def)
next
  fix i d info
  assume a: "t \<noteq> [] \<and> s (getTokenKey m t) = Some i \<and> \<not> isExpired i now \<and> val_of i = VStr d
         \<and> json_Unmarshal_TokenInfo lib d = Some info
         \<and> 0 < ActiveTimeout (config m)
         \<and> ActiveTimeout (config m) < Unix now - ti_ActiveTime info
         \<and> Unix now - ti_ActiveTime info < 2 ^ 63"
  then have e: "int64 (Unix now - ti_ActiveTime info) = Unix now - ti_ActiveTime info"
    by (intro int64_id) auto
  have g: "getTokenInfo lib m s now t = Returns (Inr info)"
    using a by (simp add: getTokenInfo_def Storage_Get_def)
  show "IsLogin lib m s now t = (Returns False, Storage_Delete s (getTokenKey m t), False)"
    using a e g by (simp add: IsLogin_def Storage_Exists_def LogoutByToken_def Let_def)
next
  show "LogoutByToken m s t = (None, Storage_Delete s (getTokenKey m t))"
    by (simp add: LogoutByToken_def)
next
  show "Storage_Delete s (getTokenKey m t) (getTokenKey m t) = None"
    by (simp add: Storage_Delete_def)
qed


theorem IsLogin_false_witness:
  "''tok'' \<noteq> []
   \<and> (Map.empty(getTokenKey (NewManager (DefaultConfig\<lparr>ActiveTimeout := 10\<rparr>)) ''tok''
         \<mapsto> \<lparr>val_of = VStr ''{}'', expiration = 0\<rparr>))
        (getTokenKey (NewManager (DefaultConfig\<lparr>ActiveTimeout := 10\<rparr>)) ''tok'')
       = Some \<lparr>val_of = VStr ''{}'', expiration = 0\<rparr>
   \<and> \<not> isExpired \<lparr>val_of = VStr ''{}'', expiration = 0\<rparr> (100 * Second)
   \<and> json_Unmarshal_TokenInfo lib_instance ''{}'' = Some zero_TokenInfo
   \<and> 10 < Unix (100 * Second) - ti_ActiveTime zero_TokenInfo
   \<and> fst (IsLogin lib_instance (NewManager (DefaultConfig\<lparr>ActiveTimeout := 10\<rparr>))
        (Map.empty(getTokenKey (NewManager (DefaultConfig\<lparr>ActiveTimeout := 10\<rparr>)) ''tok''
           \<mapsto> \<lparr>val_of = VStr ''{}'', expiration = 0\<rparr>))
        (100 * Second) ''tok'') = Returns False
   \<and> fst (snd (IsLogin lib_instance (NewManager (DefaultConfig\<lparr>ActiveTimeout := 10\<rparr>))
        (Map.empty(getTokenKey (NewManager (DefaultConfig\<lparr>ActiveTimeout := 10\<rparr>)) ''tok''
           \<mapsto> \<lparr>val_of = VStr ''{}'', expiration = 0\<rparr>))
        (100 * Second) ''tok''))
        (getTokenKey (NewManager (DefaultConfig\<lparr>ActiveTimeout := 10\<rparr>)) ''tok'') = None
   \<and> IsLogin lib_instance (NewManager DefaultConfig) NewStorage 0 ''tok''
       = (Returns False, NewStorage, False)"
proof -
  let ?m = "NewManager (DefaultConfig\<lparr>ActiveTimeout := 10\<rparr>)"
  let ?i = "\<lparr>val_of = VStr ''{}'', expiration = 0\<rparr>"
  let ?s = "Map.empty(getTokenKey ?m ''tok'' \<mapsto> ?i)"
  have h: "''tok'' \<noteq> [] \<and> ?s (getTokenKey ?m ''tok'') = Some ?i
      \<and> \<not> isExpired ?i (100 * Second) \<and> val_of ?i = VStr ''{}''
      \<and> json_Unmarshal_TokenInfo lib_instance ''{}'' = Some zero_TokenInfo
      \<and> 0 < ActiveTimeout (config ?m)
      \<and> ActiveTimeout (config ?m) < Unix (100 * Second) - ti_ActiveTime zero_TokenInfo
      \<and> Unix (100 * Second) - ti_ActiveTime zero_TokenInfo < 2 ^ 63"
    by (simp add: isExpired_def lib_instance_def zero_TokenInfo_def NewManager_def
          DefaultConfig_def Unix_def Second_def)
  have n: "NewStorage (getTokenKey (NewManager DefaultConfig) ''tok'') = None"
    by (simp add: NewStorage_def)
  show ?thesis
    using h n IsLogin_false [of lib_instance ?m ?s "100 * Second" "''tok''"]
      IsLogin_false [of lib_instance "NewManager DefaultConfig" NewStorage 0 "''tok''"]
    by (simp add: Storage_Delete_def NewManager_def DefaultConfig_def)
qed

text \<open>The storage keys of the manager's records never coincide across kinds.\<close>

lemma token_account_keys: "getTokenKey m t \<noteq> getAccountKey m l d"
  by (simp add: getTokenKey_def getAccountKey_def)

lemma token_disable_keys: "getTokenKey m t \<noteq> prefix m @ ''disable:'' @ l"
  by (simp add: getTokenKey_def)

lemma token_session_keys: "getTokenKey m t \<noteq> prefix m @ ''session:'' @ l"
  by (simp add: getTokenKey_def)

lemma account_session_keys: "getAccountKey m l d \<noteq> prefix m @ ''session:'' @ l'"
  by (simp add: getAccountKey_def)

lemma account_disable_keys: "getAccountKey m l d \<noteq> prefix m @ ''disable:'' @ l'"
  by (simp add: getAccountKey_def)

lemma getTokenKey_inj: "getTokenKey m t = getTokenKey m t' \<longleftrightarrow> t = t'"
  by (simp add: getTokenKey_def)




lemma isExpired_mono: "isExpired i now \<Longrightarrow> now \<le> later \<Longrightarrow> isExpired i later"
proof -
  assume e: "isExpired i now" and l: "now \<le> later"
  have "Unix now \<le> Unix later"
    using l by (simp add: Unix_def Second_def zdiv_mono1)
  then show ?thesis using e by (auto simp: isExpired_def split: if_splits)
qed

lemma Storage_Get_mono:
  "Storage_Get s now k = Inl e \<Longrightarrow> now \<le> later \<Longrightarrow> \<exists>e'. Storage_Get s later k = Inl e'"
  by (auto simp: Storage_Get_def isExpired_mono split: option.splits if_splits)

lemma Logout_mapped:
  "Storage_Get s now (getAccountKey m P (deviceType D)) = Inr (VStr t) \<Longrightarrow>
   Logout m s now P D =
     (Returns None,
      Storage_Delete (Storage_Delete s (getTokenKey m t)) (getAccountKey m P (deviceType D)))"
  by (simp add: Logout_def)

lemma Logout_unmapped:
  "Storage_Get s now (getAccountKey m P (deviceType D)) = Inl e \<Longrightarrow>
   Logout m s now P D = (Returns None, s)"
  by (simp add: Logout_def)

lemma Logout_again:
  assumes np: "fst (Logout m s now P D) \<noteq> Panics" and l: "now \<le> later"
  shows "Logout m (snd (Logout m s now P D)) later P D = (Returns None, snd (Logout m s now P D))"
proof (cases "Storage_Get s now (getAccountKey m P (deviceType D))")
  case (Inl e)
  then obtain e' where "Storage_Get s later (getAccountKey m P (deviceType D)) = Inl e'"
    using Storage_Get_mono l by blast
  then show ?thesis using Inl by (simp add: Logout_unmapped)
next
  case (Inr v)
  then obtain t where v: "v = VStr t"
    using np by (cases v) (auto simp: Logout_def)
  have "Storage_Get (snd (Logout m s now P D)) later (getAccountKey m P (deviceType D))
          = Inl (KeyNotFound (getAccountKey m P (deviceType D)))"
    using Inr v by (simp add: Logout_mapped Storage_Get_def Storage_Delete_def)
  then show ?thesis by (simp add: Logout_unmapped)
qed

text \<open>
  Claim C6, as amended. \<^verbatim>\<open>Logout(P, D)\<close> never returns an error. When the mapping of
  the pair is live and holds the token \<open>t\<close>, it deletes the TokenInfo record of \<open>t\<close> and
  the mapping row, and nothing else; when the mapping is absent or expired it changes
  nothing. A second \<^verbatim>\<open>Logout(P, D)\<close> at a later instant returns no error and leaves the
  storage as it is. (A TokenInfo record of the pair that the mapping does not hold, such as
  the token of an earlier concurrent login, is not removed.)
\<close>

theorem Logout_idempotent:
  "(\<forall>t. Storage_Get s now (getAccountKey m P (deviceType D)) = Inr (VStr t) \<longrightarrow>
        fst (Logout m s now P D) = Returns None
        \<and> snd (Logout m s now P D) (getTokenKey m t) = None
        \<and> snd (Logout m s now P D) (getAccountKey m P (deviceType D)) = None
        \<and> (\<forall>k. k \<noteq> getTokenKey m t \<and> k \<noteq> getAccountKey m P (deviceType D)
               \<longrightarrow> snd (Logout m s now P D) k = s k))
   \<and> (\<forall>e. Storage_Get s now (getAccountKey m P (deviceType D)) = Inl e \<longrightarrow>
        Logout m s now P D = (Returns None, s))
   \<and> (\<forall>later. fst (Logout m s now P D) \<noteq> Panics \<and> now \<le> later \<longrightarrow>
        Logout m (snd (Logout m s now P D)) later P D
          = (Returns None, snd (Logout m s now P D)))"
  using Logout_again [of m s now P D]
  by (auto simp: Logout_mapped Logout_unmapped Storage_Delete_def)

text \<open>
  The claim as stated promises that no TokenInfo of the pair remains. After two logins of
  \<^verbatim>\<open>u\<close> under the default configuration and two logouts, the TokenInfo record of the
  first token is still in storage and the first token still passes \<^verbatim>\<open>IsLogin\<close>.
\<close>

theorem Logout_residual_counterexample:
  "fst first_login = Returns (Inr ''00000000000'')
   \<and> fst second_login = Returns (Inr ''11111111111'')
   \<and> fst first_logout = Returns None
   \<and> fst second_logout = Returns None
   \<and> snd second_logout (getTokenKey tik_manager ''00000000000'')
       = snd first_login (getTokenKey tik_manager ''00000000000'')
   \<and> snd second_logout (getTokenKey tik_manager ''00000000000'')
       = Some \<lparr>val_of = VStr (json_Marshal_TokenInfo lib_instance
                                 \<lparr>ti_LoginID = ''u'', ti_Device = ''default'',
                                  ti_CreateTime = 0, ti_ActiveTime = 0, ti_Tag = []\<rparr>),
               expiration = 2592000\<rparr>
   \<and> Storage_Exists (snd second_logout) (4 * Second) (getTokenKey tik_manager ''00000000000'')
   \<and> fst (IsLogin lib_instance tik_manager (snd second_logout) (4 * Second) ''00000000000'')
       = Returns True"
  by code_simp

theorem Logout_idempotent_witness:
  "Storage_Get (snd second_login) (2 * Second) (getAccountKey tik_manager ''u'' (deviceType []))
     = Inr (VStr ''11111111111'')
   \<and> snd first_logout (getTokenKey tik_manager ''11111111111'') = None
   \<and> snd first_logout (getAccountKey tik_manager ''u'' (deviceType [])) = None
   \<and> fst first_logout \<noteq> Panics
   \<and> 2 * Second \<le> 3 * Second
   \<and> second_logout = (Returns None, snd first_logout)"
proof -
  have h: "Storage_Get (snd second_login) (2 * Second)
             (getAccountKey tik_manager ''u'' (deviceType [])) = Inr (VStr ''11111111111'')"
    by code_simp
  have p: "fst first_logout \<noteq> Panics"
    by code_simp
  have l: "2 * Second \<le> 3 * Second"
    by (simp add: Second_def)
  note T = Logout_idempotent [of "snd second_login" "2 * Second" tik_manager "''u''" "[]"]
  have a: "snd first_logout (getTokenKey tik_manager ''11111111111'') = None
      \<and> snd first_logout (getAccountKey tik_manager ''u'' (deviceType [])) = None"
    using T h unfolding first_logout_def by blast
  have b: "second_logout = (Returns None, snd first_logout)"
    using T p l unfolding first_logout_def second_logout_def by blast
  show ?thesis using h p l a b by (intro conjI) simp_all
qed

text \<open>What a successful \<^verbatim>\<open>Login\<close> writes, and what \<^verbatim>\<open>Keys\<close> finds.\<close>

lemma Unix_mono: "a \<le> b \<Longrightarrow> Unix a \<le> Unix b"
  by (simp add: Unix_def Second_def zdiv_mono1)

lemma Storage_Set_live:
  "Storage_Get (Storage_Set s now k v ttl) now k = Inr v"
proof (cases "ttl > 0")
  case True
  then have "Unix now \<le> Unix (now + ttl)" by (intro Unix_mono) simp
  then show ?thesis
    by (simp add: Storage_Get_def Storage_Set_def isExpired_def Let_def)
next
  case False
  then show ?thesis
    by (simp add: Storage_Get_def Storage_Set_def isExpired_def Let_def)
qed

lemma Login_storage:
  assumes ok: "fst (Login lib m s now rnd L D) = Returns (Inr tok)"
  shows "\<exists>s1 v1 v3.
           (s1 = s \<or> (\<not> IsConcurrent (config m) \<and> s1 = snd (kickout m s now L (deviceType D))))
           \<and> snd (Login lib m s now rnd L D) =
               Storage_Set
                 (Storage_Set
                    (Storage_Set s1 now (getTokenKey m tok) v1 (getExpiration m))
                    now (getAccountKey m L (deviceType D)) (VStr tok) (getExpiration m))
                 now (prefix m @ ''session:'' @ L) v3 0"
  using ok
  by (auto simp: Login_def Let_def Session_Set_def Session_save_def saveTokenInfo_def
        NewSession_def Storage_Set_def
      split: if_splits prod.splits go.splits sum.splits)


lemma Login_mapping:
  assumes ok: "fst (Login lib m s now rnd L D) = Returns (Inr tok)"
  shows "Storage_Get (snd (Login lib m s now rnd L D)) now (getAccountKey m L (deviceType D))
           = Inr (VStr tok)"
proof -
  obtain s1 v1 v3 where
    s': "snd (Login lib m s now rnd L D) =
           Storage_Set
             (Storage_Set
                (Storage_Set s1 now (getTokenKey m tok) v1 (getExpiration m))
                now (getAccountKey m L (deviceType D)) (VStr tok) (getExpiration m))
             now (prefix m @ ''session:'' @ L) v3 0"
    using Login_storage [OF ok] by blast
  let ?s3 = "Storage_Set (Storage_Set s1 now (getTokenKey m tok) v1 (getExpiration m))
               now (getAccountKey m L (deviceType D)) (VStr tok) (getExpiration m)"
  have "Storage_Get ?s3 now (getAccountKey m L (deviceType D)) = Inr (VStr tok)"
    by (rule Storage_Set_live)
  moreover have "snd (Login lib m s now rnd L D) (getAccountKey m L (deviceType D))
                   = ?s3 (getAccountKey m L (deviceType D))"
    unfolding s' using account_session_keys [of m L "deviceType D" L]
    by (simp add: Storage_Set_def [of ?s3])
  ultimately show ?thesis by (simp add: Storage_Get_def)
qed

lemma Login_keeps_token:
  assumes ok: "fst (Login lib m s now rnd L D) = Returns (Inr tok)"
    and conc: "IsConcurrent (config m)" and ne: "t1 \<noteq> tok"
  shows "snd (Login lib m s now rnd L D) (getTokenKey m t1) = s (getTokenKey m t1)"
proof -
  obtain s1 v1 v3 where
    s1: "s1 = s \<or> (\<not> IsConcurrent (config m) \<and> s1 = snd (kickout m s now L (deviceType D)))"
    and s': "snd (Login lib m s now rnd L D) =
           Storage_Set
             (Storage_Set
                (Storage_Set s1 now (getTokenKey m tok) v1 (getExpiration m))
                now (getAccountKey m L (deviceType D)) (VStr tok) (getExpiration m))
             now (prefix m @ ''session:'' @ L) v3 0"
    using Login_storage [OF ok] by blast
  have "s1 = s" using s1 conc by simp
  then show ?thesis
    unfolding s'
    using token_account_keys [of m t1 L "deviceType D"] token_session_keys [of m t1 L] ne
    by (simp add: Storage_Set_def Let_def getTokenKey_inj)
qed

lemma IsLogin_depends:
  "s (getTokenKey m t) = s' (getTokenKey m t) \<Longrightarrow>
   fst (IsLogin lib m s now t) = fst (IsLogin lib m s' now t)"
  by (simp add: IsLogin_def Let_def Storage_Exists_def getTokenInfo_def Storage_Get_def
      split: option.splits sum.splits go.splits val.splits)


lemma account_pattern:
  assumes m: "matchPattern key (prefix (NewManager cfg) @ ''account:'' @ L @ '':*'')"
  shows "key = getAccountKey (NewManager cfg) L (drop (length (''satoken:account:'' @ L @ '':'')) key)"
proof -
  let ?pat = "''satoken:account:'' @ L @ '':*''"
  have p: "prefix (NewManager cfg) @ ''account:'' @ L @ '':*'' = ?pat"
    by (simp add: NewManager_def)
  have t: "TrimPrefix ?pat ''**/'' = ?pat"
    by (simp add: TrimPrefix_def HasPrefix_def)
  have suf: "HasSuffix ?pat ''*''"
    unfolding HasSuffix_iff by (rule exI [of _ "''satoken:account:'' @ L @ '':''"]) simp
  have ts: "TrimSuffix ?pat ''*'' = ''satoken:account:'' @ L @ '':''"
    using suf by (simp add: TrimSuffix_def)
  have "HasPrefix key (''satoken:account:'' @ L @ '':'')"
    using m unfolding p matchPattern_def t Let_def using suf ts by (simp split: if_splits)
  then obtain r where r: "key = (''satoken:account:'' @ L @ '':'') @ r"
    unfolding HasPrefix_iff by blast
  have "drop (length (''satoken:account:'' @ L @ '':'')) key = r"
    by (subst r) (simp only: append_eq_conv_conj drop_append length_append, simp)
  then show ?thesis
    using r by (simp add: getAccountKey_def NewManager_def)
qed

lemma collect_tokens_all2:
  assumes "collect_tokens s now keys = Returns toks"
    and "\<forall>k \<in> set keys. \<exists>v. Storage_Get s now k = Inr v"
  shows "list_all2 (\<lambda>k t. Storage_Get s now k = Inr (VStr t)) keys toks"
  using assms
proof (induction keys arbitrary: toks)
  case Nil
  then show ?case by simp
next
  case (Cons k keys)
  then obtain v where v: "Storage_Get s now k = Inr v" by auto
  show ?case
  proof (cases v)
    case (VStr t)
    then obtain rest where rest: "collect_tokens s now keys = Returns rest" and toks: "toks = t # rest"
      using Cons.prems(1) v by (auto split: go.splits)
    have "list_all2 (\<lambda>k t. Storage_Get s now k = Inr (VStr t)) keys rest"
      using Cons.IH [OF rest] Cons.prems(2) by simp
    then show ?thesis using v VStr toks by simp
  next
    case (VInt x)
    then show ?thesis using Cons.prems(1) v by simp
  next
    case (VCode x)
    then show ?thesis using Cons.prems(1) v by simp
  next
    case (VTok x)
    then show ?thesis using Cons.prems(1) v by simp
  qed
qed

lemma Storage_Keys_live:
  "k \<in> set (Storage_Keys s now order pat) \<Longrightarrow>
   (\<exists>v. Storage_Get s now k = Inr v) \<and> matchPattern k pat"
  by (auto simp: Storage_Keys_def Storage_Get_def split: option.splits)

lemma Storage_Keys_distinct:
  "iteration_order s order \<Longrightarrow> distinct (Storage_Keys s now order pat)"
  by (simp add: Storage_Keys_def iteration_order_def)

lemma token_list_devices:
  assumes ord: "iteration_order s order"
    and res: "GetTokenValueListByLoginID (NewManager cfg) s now order L = Returns (Inr toks)"
  shows "\<exists>ds. distinct ds \<and>
           list_all2 (\<lambda>d t. Storage_Get s now (getAccountKey (NewManager cfg) L d) = Inr (VStr t))
             ds toks"
proof -
  let ?m = "NewManager cfg"
  let ?keys = "Storage_Keys s now order (prefix ?m @ ''account:'' @ L @ '':*'')"
  let ?dev = "\<lambda>k. drop (length (''satoken:account:'' @ L @ '':'')) k"
  have c: "collect_tokens s now ?keys = Returns toks"
    using res by (simp add: GetTokenValueListByLoginID_def split: go.splits)
  have live: "\<forall>k \<in> set ?keys. \<exists>v. Storage_Get s now k = Inr v"
    using Storage_Keys_live by blast
  have key: "\<forall>k \<in> set ?keys. getAccountKey ?m L (?dev k) = k"
    using Storage_Keys_live account_pattern by metis
  have a: "list_all2 (\<lambda>k t. Storage_Get s now k = Inr (VStr t)) ?keys toks"
    using collect_tokens_all2 [OF c live] .
  have "list_all2 (\<lambda>d t. Storage_Get s now (getAccountKey ?m L d) = Inr (VStr t))
          (map ?dev ?keys) toks"
    unfolding list_all2_map1
    using a key by (auto elim!: list_all2_mono simp: list_all2_conv_all_nth)
  moreover have "distinct (map ?dev ?keys)"
  proof -
    have "inj_on ?dev (set ?keys)"
      by (rule inj_onI) (metis key)
    then show ?thesis
      using Storage_Keys_distinct [OF ord] by (simp add: distinct_map)
  qed
  ultimately show ?thesis by blast
qed

lemma Storage_Set_dom: "dom (Storage_Set s now k v ttl) = insert k (dom s)"
  by (simp add: Storage_Set_def Let_def)

lemma Login_dom:
  assumes ok: "fst (Login lib m s now rnd L D) = Returns (Inr tok)"
    and conc: "IsConcurrent (config m)"
  shows "dom (snd (Login lib m s now rnd L D)) =
           {getTokenKey m tok, getAccountKey m L (deviceType D), prefix m @ ''session:'' @ L}
           \<union> dom s"
proof -
  obtain s1 v1 v3 where
    s1: "s1 = s \<or> (\<not> IsConcurrent (config m) \<and> s1 = snd (kickout m s now L (deviceType D)))"
    and s': "snd (Login lib m s now rnd L D) =
           Storage_Set
             (Storage_Set
                (Storage_Set s1 now (getTokenKey m tok) v1 (getExpiration m))
                now (getAccountKey m L (deviceType D)) (VStr tok) (getExpiration m))
             now (prefix m @ ''session:'' @ L) v3 0"
    using Login_storage [OF ok] by blast
  have "s1 = s" using s1 conc by simp
  then show ?thesis unfolding s' by (auto simp: Storage_Set_dom)
qed

lemma first_login_token: "fst first_login = Returns (Inr ''00000000000'')"
  by code_simp

lemma second_login_token: "fst second_login = Returns (Inr ''11111111111'')"
  by code_simp

lemma second_login_order: "iteration_order (snd second_login) keys_after_second_login"
proof -
  have c: "IsConcurrent (config tik_manager)"
    by (simp add: tik_manager_def NewManager_def DefaultConfig_def)
  have d1: "dom (snd first_login) =
      {getTokenKey tik_manager ''00000000000'', getAccountKey tik_manager ''u'' (deviceType []),
       prefix tik_manager @ ''session:'' @ ''u''} \<union> dom NewStorage"
    using first_login_token c unfolding first_login_def by (rule Login_dom)
  have d2: "dom (snd second_login) =
      {getTokenKey tik_manager ''11111111111'', getAccountKey tik_manager ''u'' (deviceType []),
       prefix tik_manager @ ''session:'' @ ''u''} \<union> dom (snd first_login)"
    using second_login_token c unfolding second_login_def by (rule Login_dom)
  show ?thesis
    unfolding iteration_order_def d2 d1
    by (auto simp: keys_after_second_login_def NewStorage_def getTokenKey_def getAccountKey_def
          deviceType_def tik_manager_def NewManager_def)
qed

text \<open>
  Claim C10. The mapping of a pair \<open>(L, dev)\<close> lives under the one key
  \<^verbatim>\<open>prefix + "account:" + L + ":" + dev\<close>. A successful \<^verbatim>\<open>Login\<close> stores its token
  under that key, so that \<^verbatim>\<open>GetTokenValue\<close> returns the new token and no other. With
  concurrent login allowed, the TokenInfo record of every other token \<open>t1\<close> is left as it
  was, so \<^verbatim>\<open>IsLogin(t1)\<close> answers as before the login, although the mapping no longer
  leads to \<open>t1\<close>. Whatever the iteration order of the storage's map, the tokens that
  \<^verbatim>\<open>GetTokenValueListByLoginID(L)\<close> returns are the tokens recorded for pairwise
  distinct devices of \<open>L\<close>: at most one token per device.
\<close>

theorem account_mapping_single_key:
  "getAccountKey m L dev = prefix m @ ''account:'' @ L @ '':'' @ dev
   \<and> (\<forall>tok. fst (Login lib m s now rnd L D) = Returns (Inr tok) \<longrightarrow>
         Storage_Get (snd (Login lib m s now rnd L D)) now (getAccountKey m L (deviceType D))
           = Inr (VStr tok)
         \<and> GetTokenValue m (snd (Login lib m s now rnd L D)) now L D = Returns (Inr tok)
         \<and> (\<forall>t1. IsConcurrent (config m) \<and> t1 \<noteq> tok \<longrightarrow>
               snd (Login lib m s now rnd L D) (getTokenKey m t1) = s (getTokenKey m t1)
               \<and> (\<forall>later. fst (IsLogin lib m (snd (Login lib m s now rnd L D)) later t1)
                            = fst (IsLogin lib m s later t1))
               \<and> GetTokenValue m (snd (Login lib m s now rnd L D)) now L D
                   \<noteq> Returns (Inr t1)))
   \<and> (\<forall>cfg toks.
         iteration_order s order
         \<and> GetTokenValueListByLoginID (NewManager cfg) s now order L = Returns (Inr toks) \<longrightarrow>
         (\<exists>ds. distinct ds \<and>
            list_all2
              (\<lambda>d t. Storage_Get s now (getAccountKey (NewManager cfg) L d) = Inr (VStr t))
              ds toks))"
proof (intro conjI allI impI)
  show "getAccountKey m L dev = prefix m @ ''account:'' @ L @ '':'' @ dev"
    by (simp add: getAccountKey_def)
next
  fix tok
  assume ok: "fst (Login lib m s now rnd L D) = Returns (Inr tok)"
  show g: "Storage_Get (snd (Login lib m s now rnd L D)) now (getAccountKey m L (deviceType D))
           = Inr (VStr tok)"
    using ok by (rule Login_mapping)
  show v: "GetTokenValue m (snd (Login lib m s now rnd L D)) now L D = Returns (Inr tok)"
    using g by (simp add: GetTokenValue_def)
  fix t1
  assume c: "IsConcurrent (config m) \<and> t1 \<noteq> tok"
  show k: "snd (Login lib m s now rnd L D) (getTokenKey m t1) = s (getTokenKey m t1)"
    using ok c by (intro Login_keeps_token) auto
  show "GetTokenValue m (snd (Login lib m s now rnd L D)) now L D \<noteq> Returns (Inr t1)"
    using v c by auto
  fix later
  show "fst (IsLogin lib m (snd (Login lib m s now rnd L D)) later t1)
          = fst (IsLogin lib m s later t1)"
    using k by (rule IsLogin_depends)
next
  fix cfg toks
  assume "iteration_order s order
         \<and> GetTokenValueListByLoginID (NewManager cfg) s now order L = Returns (Inr toks)"
  then show "\<exists>ds. distinct ds \<and>
            list_all2
              (\<lambda>d t. Storage_Get s now (getAccountKey (NewManager cfg) L d) = Inr (VStr t))
              ds toks"
    using token_list_devices by blast
qed

theorem account_mapping_single_key_witness:
  "fst first_login = Returns (Inr ''00000000000'')
   \<and> fst second_login = Returns (Inr ''11111111111'')
   \<and> IsConcurrent (config tik_manager)
   \<and> ''00000000000'' \<noteq> ''11111111111''
   \<and> GetTokenValue tik_manager (snd second_login) Second ''u'' [] = Returns (Inr ''11111111111'')
   \<and> snd second_login (getTokenKey tik_manager ''00000000000'')
       = snd first_login (getTokenKey tik_manager ''00000000000'')
   \<and> fst (IsLogin lib_instance tik_manager (snd second_login) (2 * Second) ''00000000000'')
       = Returns True
   \<and> iteration_order (snd second_login) keys_after_second_login
   \<and> GetTokenValueListByLoginID tik_manager (snd second_login) (2 * Second)
        keys_after_second_login ''u'' = Returns (Inr [''11111111111''])
   \<and> (\<exists>ds. distinct ds \<and>
         list_all2
           (\<lambda>d t. Storage_Get (snd second_login) (2 * Second) (getAccountKey tik_manager ''u'' d)
                    = Inr (VStr t))
           ds [''11111111111''])"
proof -
  have c: "IsConcurrent (config tik_manager)"
    by (simp add: tik_manager_def NewManager_def DefaultConfig_def)
  have ne: "''00000000000'' \<noteq> ''11111111111''"
    by simp
  have ok: "fst (Login lib_instance tik_manager (snd first_login) Second (rand_tik 1) ''u'' [])
              = Returns (Inr ''11111111111'')"
    using second_login_token by (simp add: second_login_def)
  note T = account_mapping_single_key [of tik_manager "''u''" "''default''" lib_instance
      "snd first_login" Second "rand_tik 1" "[]" keys_after_second_login,
      THEN conjunct2, THEN conjunct1, rule_format, OF ok]
  have v: "GetTokenValue tik_manager (snd second_login) Second ''u'' []
             = Returns (Inr ''11111111111'')"
    using T [THEN conjunct2, THEN conjunct1] by (simp only: second_login_def)
  have k: "snd second_login (getTokenKey tik_manager ''00000000000'')
             = snd first_login (getTokenKey tik_manager ''00000000000'')"
    using T [THEN conjunct2, THEN conjunct2, rule_format, of "''00000000000''",
        OF conjI [OF c ne], THEN conjunct1]
    by (simp only: second_login_def)
  have i: "fst (IsLogin lib_instance tik_manager (snd second_login) (2 * Second) ''00000000000'')
             = Returns True"
    by code_simp
  have l: "GetTokenValueListByLoginID tik_manager (snd second_login) (2 * Second)
             keys_after_second_login ''u'' = Returns (Inr [''11111111111''])"
    by code_simp
  have d: "\<exists>ds. distinct ds \<and>
         list_all2
           (\<lambda>d t. Storage_Get (snd second_login) (2 * Second) (getAccountKey tik_manager ''u'' d)
                    = Inr (VStr t))
           ds [''11111111111'']"
    using account_mapping_single_key [of tik_manager "''u''" "''default''" lib_instance
      "snd second_login" "2 * Second" "rand_tik 1" "[]" keys_after_second_login,
      THEN conjunct2, THEN conjunct2, rule_format,
      of "DefaultConfig\<lparr>TokenStyle := TokenStyleTik\<rparr>" "[''11111111111'']",
      OF conjI [OF second_login_order l [unfolded tik_manager_def]]]
    by (simp only: tik_manager_def [symmetric])
  show ?thesis
    using first_login_token second_login_token c ne v k i second_login_order l d
    by (intro conjI)
qed

section \<open>Properties of the token generator\<close>

lemmas TokenStyle_defs =
  TokenStyleUUID_def TokenStyleSimple_def TokenStyleRandom32_def TokenStyleRandom64_def
  TokenStyleRandom128_def TokenStyleJWT_def TokenStyleHash_def TokenStyleTimestamp_def
  TokenStyleTik_def

lemma generateSimple_fails: "reads rnd 0 = None \<Longrightarrow> generateSimple rnd n = Returns (Inl RandFailed)"
  by (simp add: generateSimple_def rand_Read_def)

lemma generateHash_fails:
  "reads rnd 0 = None \<Longrightarrow> generateHash lib rnd now L D = Returns (Inl RandFailed)"
  by (simp add: generateHash_def rand_Read_def)

lemma generateTimestamp_fails:
  "reads rnd 0 = None \<Longrightarrow> generateTimestamp rnd now L D = Returns (Inl RandFailed)"
  by (simp add: generateTimestamp_def rand_Read_def)

lemma tik_loop_fails:
  "\<exists>j. i \<le> j \<and> j < i + k \<and> ints rnd j = None \<Longrightarrow> tik_loop rnd i k = Inl RandFailed"
proof (induction k arbitrary: i)
  case 0
  then show ?case by auto
next
  case (Suc k)
  then obtain j where j: "i \<le> j" "j < i + Suc k" "ints rnd j = None" by blast
  show ?case
  proof (cases "ints rnd i")
    case None
    then show ?thesis by simp
  next
    case (Some num)
    then have "j \<noteq> i" using j(3) by auto
    then have "\<exists>j. Suc i \<le> j \<and> j < Suc i + k \<and> ints rnd j = None"
      using j by (intro exI [of _ j]) auto
    then have "tik_loop rnd (Suc i) k = Inl RandFailed" by (rule Suc.IH)
    then show ?thesis using Some by simp
  qed
qed

lemma generateTik_fails:
  "\<exists>j. j < 11 \<and> ints rnd j = None \<Longrightarrow> generateTik rnd = Returns (Inl RandFailed)"
  using tik_loop_fails [of 0 11 rnd] by (auto simp: generateTik_def)

lemma generateUUID_panics: "reads rnd 0 = None \<Longrightarrow> generateUUID rnd = Panics"
  by (simp add: generateUUID_def uuid_New_def rand_Read_def)

text \<open>
  The styles that read the random source and hand its failure on: \<^verbatim>\<open>simple\<close>,
  \<^verbatim>\<open>random32\<close>, \<^verbatim>\<open>random64\<close>, \<^verbatim>\<open>random128\<close>, \<^verbatim>\<open>hash\<close> and \<^verbatim>\<open>timestamp\<close>
  make one read, \<^verbatim>\<open>tik\<close> makes eleven draws. When the read fails, or any one of the
  eleven draws, \<^verbatim>\<open>Generate\<close> returns the error, and neither a token nor a panic.
\<close>

lemma Generate_returns_random_failure:
  "(TokenStyle cfg \<in> {TokenStyleSimple, TokenStyleRandom32, TokenStyleRandom64,
                        TokenStyleRandom128, TokenStyleHash, TokenStyleTimestamp}
      \<and> reads rnd 0 = None
     \<longrightarrow> Generate lib cfg rnd now L D = Returns (Inl RandFailed))
   \<and> (TokenStyle cfg = TokenStyleTik \<and> (\<exists>j. j < 11 \<and> ints rnd j = None)
     \<longrightarrow> Generate lib cfg rnd now L D = Returns (Inl RandFailed))"
proof (intro conjI impI)
  assume a: "TokenStyle cfg \<in> {TokenStyleSimple, TokenStyleRandom32, TokenStyleRandom64,
                        TokenStyleRandom128, TokenStyleHash, TokenStyleTimestamp}
      \<and> reads rnd 0 = None"
  then have r: "reads rnd 0 = None" by simp
  show "Generate lib cfg rnd now L D = Returns (Inl RandFailed)"
    using a
    by (auto simp: Generate_def generateSimple_fails [OF r] generateHash_fails [OF r]
          generateTimestamp_fails [OF r] TokenStyle_defs)
next
  assume a: "TokenStyle cfg = TokenStyleTik \<and> (\<exists>j. j < 11 \<and> ints rnd j = None)"
  then have "generateTik rnd = Returns (Inl RandFailed)" by (intro generateTik_fails) simp
  then show "Generate lib cfg rnd now L D = Returns (Inl RandFailed)"
    using a by (simp add: Generate_def TokenStyle_defs)
qed

text \<open>
  The style \<^verbatim>\<open>jwt\<close> asks the random source for nothing: \<^verbatim>\<open>Generate\<close> returns the
  signed token, the same whatever the random source answers.
\<close>

lemma Generate_jwt:
  "TokenStyle cfg = TokenStyleJWT \<Longrightarrow>
   Generate lib cfg rnd now L D = generateJWT lib cfg now L D"
  by (simp add: Generate_def TokenStyle_defs)

lemma Generate_jwt_ignores_random:
  "TokenStyle cfg = TokenStyleJWT \<Longrightarrow>
   (\<exists>tok. Generate lib cfg rnd now L D = Returns (Inr tok))
   \<and> Generate lib cfg rnd now L D = Generate lib cfg rnd' now L D"
  by (simp add: Generate_jwt generateJWT_def Let_def)

text \<open>
  The style \<^verbatim>\<open>uuid\<close>, and every style string the \<^verbatim>\<open>switch\<close> does not know, goes
  through \<^verbatim>\<open>uuid.New()\<close>: when the read of the random source fails, \<^verbatim>\<open>Generate\<close>
  panics.
\<close>

lemma Generate_uuid_random_failure:
  "reads rnd 0 = None \<Longrightarrow>
   TokenStyle cfg \<notin> {TokenStyleSimple, TokenStyleRandom32, TokenStyleRandom64, TokenStyleRandom128,
                      TokenStyleJWT, TokenStyleHash, TokenStyleTimestamp, TokenStyleTik} \<Longrightarrow>
   Generate lib cfg rnd now L D = Panics"
  by (simp add: Generate_def generateUUID_panics)

text \<open>
  Claim C9. For every token style, the default \<^verbatim>\<open>uuid\<close> included, \<^verbatim>\<open>Generate\<close> is to
  return an error when the random source fails, and to fail in no other way. The code at
  the default configuration with a random source that fails: \<^verbatim>\<open>Generate\<close> returns no
  error, it panics. With the style \<^verbatim>\<open>simple\<close>, \<^verbatim>\<open>hash\<close>, \<^verbatim>\<open>timestamp\<close> or
  \<^verbatim>\<open>tik\<close> and the same source it returns the error.
\<close>

theorem Generate_default_style_panics:
  "TokenStyle DefaultConfig = TokenStyleUUID
   \<and> reads no_rand 0 = None
   \<and> Generate lib_instance DefaultConfig no_rand 0 ''u'' ''web'' = Panics
   \<and> Generate lib_instance (DefaultConfig\<lparr>TokenStyle := ''other''\<rparr>) no_rand 0 ''u'' ''web''
       = Panics
   \<and> Generate lib_instance (DefaultConfig\<lparr>TokenStyle := TokenStyleSimple\<rparr>) no_rand 0 ''u''
        ''web'' = Returns (Inl RandFailed)
   \<and> Generate lib_instance (DefaultConfig\<lparr>TokenStyle := TokenStyleHash\<rparr>) no_rand 0 ''u''
        ''web'' = Returns (Inl RandFailed)
   \<and> Generate lib_instance (DefaultConfig\<lparr>TokenStyle := TokenStyleTimestamp\<rparr>) no_rand 0 ''u''
        ''web'' = Returns (Inl RandFailed)
   \<and> Generate lib_instance (DefaultConfig\<lparr>TokenStyle := TokenStyleTik\<rparr>) no_rand 0 ''u''
        ''web'' = Returns (Inl RandFailed)"
  by code_simp

section \<open>Properties of the OAuth2 server\<close>

lemma oauth_keys [simp]:
  "codeKey c \<noteq> tokenKey t" "codeKey c \<noteq> refreshKey r" "tokenKey t \<noteq> refreshKey r"
  "tokenKey t \<noteq> codeKey c" "refreshKey r \<noteq> codeKey c" "refreshKey r \<noteq> tokenKey t"
  by (simp_all add: codeKey_def tokenKey_def refreshKey_def)

lemma oauth_keys_inj [simp]:
  "tokenKey t = tokenKey t' \<longleftrightarrow> t = t'" "refreshKey r = refreshKey r' \<longleftrightarrow> r = r'"
  "codeKey c = codeKey c' \<longleftrightarrow> c = c'"
  by (simp_all add: codeKey_def tokenKey_def refreshKey_def)

lemma Storage_Get_other:
  "k \<noteq> k' \<Longrightarrow> Storage_Get (Storage_Set s now k' v ttl) later k = Storage_Get s later k"
  by (simp add: Storage_Get_def Storage_Set_def Let_def)

lemma Storage_Get_deleted:
  "Storage_Get (Storage_Delete s k) later k = Inl (KeyNotFound k)"
  by (simp add: Storage_Get_def Storage_Delete_def)

lemma Storage_Get_delete_other:
  "k \<noteq> k' \<Longrightarrow> Storage_Get (Storage_Delete s k') later k = Storage_Get s later k"
  by (simp add: Storage_Get_def Storage_Delete_def)

lemma Storage_Get_within:
  "0 < ttl \<Longrightarrow> Unix later \<le> Unix (now + ttl) \<Longrightarrow>
   Storage_Get (Storage_Set s now k v ttl) later k = Inr v"
  by (simp add: Storage_Get_def Storage_Set_def Let_def isExpired_def)

lemma Storage_Get_after:
  "0 < ttl \<Longrightarrow> Unix (now + ttl) \<noteq> 0 \<Longrightarrow> Unix (now + ttl) < Unix later \<Longrightarrow>
   Storage_Get (Storage_Set s now k v ttl) later k = Inl (KeyExpired k)"
  by (simp add: Storage_Get_def Storage_Set_def Let_def isExpired_def)

lemma generateAccessToken_ok:
  assumes "reads rnd 0 = Some b0" "reads rnd 1 = Some b1"
  shows "generateAccessToken srv s now rnd uid cid scopes =
     (let a = EncodeToString (take 32 (b0 @ replicate 32 (CHR 0x00)));
          r = EncodeToString (take 32 (b1 @ replicate 32 (CHR 0x00)));
          token = \<lparr>at_Token = a, at_TokenType = ''Bearer'',
                   at_ExpiresIn = Seconds (tokenExpiration srv), at_RefreshToken = r,
                   at_Scopes = scopes, at_UserID = uid, at_ClientID = cid\<rparr>
      in (Inr token,
          Storage_Set (Storage_Set s now (tokenKey a) (VTok token) (tokenExpiration srv))
            now (refreshKey r) (VTok token) (30 * 24 * Hour)))"
  using assms by (simp add: generateAccessToken_def rand_Read_def Let_def)

lemma generateAccessToken_result:
  assumes "generateAccessToken srv s now rnd uid cid scopes = (Inr tok, s')"
  shows "s' = Storage_Set (Storage_Set s now (tokenKey (at_Token tok)) (VTok tok) (tokenExpiration srv))
            now (refreshKey (at_RefreshToken tok)) (VTok tok) (30 * 24 * Hour)
         \<and> at_UserID tok = uid \<and> at_ClientID tok = cid \<and> at_Scopes tok = scopes"
  using assms
  by (auto simp: generateAccessToken_def Let_def split: option.splits)

lemma generateAccessToken_succeeds:
  assumes "reads rnd 0 \<noteq> None" "reads rnd 1 \<noteq> None"
  shows "\<exists>tok. fst (generateAccessToken srv s now rnd uid cid scopes) = Inr tok"
  using assms by (auto simp: generateAccessToken_ok Let_def)

lemma generateAccessToken_frame:
  assumes "generateAccessToken srv s now rnd uid cid scopes = (r, s')"
  shows "s' (codeKey c) = s (codeKey c)"
  using assms
  by (auto simp: generateAccessToken_def Let_def Storage_Set_def split: option.splits)

lemma GenerateAuthorizationCode_result:
  assumes "GenerateAuthorizationCode srv s g rnd cid uri uid scopes = (Inr ac, s1)"
  shows "s1 = Storage_Set s g (codeKey (ac_Code ac)) (VCode ac) (codeExpiration srv)
    \<and> ac_ClientID ac = cid \<and> ac_RedirectURI ac = uri \<and> \<not> ac_Used ac
    \<and> ac_CreateTime ac = Unix g \<and> ac_ExpiresIn ac = Seconds (codeExpiration srv)
    \<and> ac_UserID ac = uid \<and> ac_Scopes ac = scopes"
  using assms
  by (auto simp: GenerateAuthorizationCode_def Let_def split: sum.splits if_splits option.splits)


lemma Exchange_fresh:
  assumes "clients srv cid = Some c" "cl_ClientSecret c = secret"
    and "Storage_Get s t1 (codeKey code) = Inr (VCode ac)"
    and "\<not> ac_Used ac" "ac_ClientID ac = cid" "ac_RedirectURI ac = uri"
    and "\<not> Unix t1 > int64 (ac_CreateTime ac + ac_ExpiresIn ac)"
  shows "ExchangeCodeForToken srv s t1 rnd code cid secret uri =
           generateAccessToken srv
             (Storage_Set s t1 (codeKey code) (VCode (ac\<lparr>ac_Used := True\<rparr>)) Minute)
             t1 rnd (ac_UserID ac) (ac_ClientID ac) (ac_Scopes ac)"
  using assms by (simp add: ExchangeCodeForToken_def GetClient_def)

lemma Exchange_used:
  assumes "clients srv cid = Some c" "cl_ClientSecret c = secret"
    and "Storage_Get s t2 (codeKey code) = Inr (VCode ac)" "ac_Used ac"
  shows "ExchangeCodeForToken srv s t2 rnd code cid secret uri = (Inl CodeAlreadyUsed, s)"
  using assms by (simp add: ExchangeCodeForToken_def GetClient_def)

lemma Exchange_missing:
  assumes "clients srv cid = Some c" "cl_ClientSecret c = secret"
    and "Storage_Get s t2 (codeKey code) = Inl e"
  shows "ExchangeCodeForToken srv s t2 rnd code cid secret uri = (Inl InvalidAuthorizationCode, s)"
  using assms by (simp add: ExchangeCodeForToken_def GetClient_def)

lemma Unix_add_seconds: "Unix (g + n * Second) = Unix g + n"
  by (simp add: Unix_def Second_def)

lemma Unix_nonneg: "0 \<le> t \<Longrightarrow> 0 \<le> Unix t"
  by (simp add: Unix_def Second_def)

lemma Seconds_ten_minutes: "Seconds (10 * Minute) = 600"
  by (simp add: Seconds_def Minute_def Second_def)

text \<open>
  Claim C1, as amended. Let the client be registered with the secret presented, let the
  server be one that \<^verbatim>\<open>NewOAuth2Server\<close> built (codes live ten minutes), and let
  \<^verbatim>\<open>GenerateAuthorizationCode\<close> at instant \<open>g\<close> return the code. An exchange of the code
  with the matching client, secret and redirect URI, no later than
  \<^verbatim>\<open>CreateTime + ExpiresIn\<close>, succeeds when the two random reads of the token
  generation succeed. A second exchange within the tombstone's minute fails with
  \<^verbatim>\<open>authorization code already used\<close> and changes nothing; a second exchange after
  that minute fails with \<^verbatim>\<open>invalid authorization code\<close>, the error of a code that was
  never issued. (The clock reads a time after the epoch and within \<^verbatim>\<open>int64\<close>.)
\<close>

theorem authorization_code_single_use:
  assumes reg: "clients srv cid = Some c" and sec: "cl_ClientSecret c = secret"
    and ce: "codeExpiration srv = 10 * Minute"
    and gen: "GenerateAuthorizationCode srv s g rnd cid uri uid scopes = (Inr ac, s1)"
    and clock: "0 \<le> g" "g \<le> t1" "Unix g + 600 < 2 ^ 63"
    and before: "Unix t1 \<le> ac_CreateTime ac + ac_ExpiresIn ac"
    and rok: "reads rnd1 0 \<noteq> None" "reads rnd1 1 \<noteq> None"
  shows "(\<exists>tok. fst (ExchangeCodeForToken srv s1 t1 rnd1 (ac_Code ac) cid secret uri) = Inr tok)
    \<and> (\<forall>t2 rnd2. Unix t2 \<le> Unix (t1 + Minute) \<longrightarrow>
          ExchangeCodeForToken srv
            (snd (ExchangeCodeForToken srv s1 t1 rnd1 (ac_Code ac) cid secret uri))
            t2 rnd2 (ac_Code ac) cid secret uri
          = (Inl CodeAlreadyUsed,
             snd (ExchangeCodeForToken srv s1 t1 rnd1 (ac_Code ac) cid secret uri)))
    \<and> (\<forall>t2 rnd2. Unix (t1 + Minute) < Unix t2 \<longrightarrow>
          ExchangeCodeForToken srv
            (snd (ExchangeCodeForToken srv s1 t1 rnd1 (ac_Code ac) cid secret uri))
            t2 rnd2 (ac_Code ac) cid secret uri
          = (Inl InvalidAuthorizationCode,
             snd (ExchangeCodeForToken srv s1 t1 rnd1 (ac_Code ac) cid secret uri)))"
proof -
  let ?code = "ac_Code ac"
  let ?used = "VCode (ac\<lparr>ac_Used := True\<rparr>)"
  let ?sm = "Storage_Set s1 t1 (codeKey ?code) ?used Minute"
  let ?ex = "ExchangeCodeForToken srv s1 t1 rnd1 ?code cid secret uri"
  note G = GenerateAuthorizationCode_result [OF gen]
  have s1: "s1 = Storage_Set s g (codeKey ?code) (VCode ac) (10 * Minute)"
    using G ce by simp
  have ct: "ac_CreateTime ac + ac_ExpiresIn ac = Unix g + 600"
    using G ce by (simp add: Seconds_ten_minutes)
  have ug: "0 \<le> Unix g" using clock(1) by (rule Unix_nonneg)
  have i64: "int64 (ac_CreateTime ac + ac_ExpiresIn ac) = Unix g + 600"
    unfolding ct using ug clock(3) by (intro int64_id) auto
  have ten: "Unix (g + 10 * Minute) = Unix g + 600"
    using Unix_add_seconds [of g 600] by (simp add: Minute_def)
  have stored: "Storage_Get s1 t1 (codeKey ?code) = Inr (VCode ac)"
    unfolding s1 using before ct ten
    by (intro Storage_Get_within) (simp_all add: Minute_def Second_def)
  have live: "\<not> Unix t1 > int64 (ac_CreateTime ac + ac_ExpiresIn ac)"
    using before ct i64 by simp
  have ex: "?ex = generateAccessToken srv ?sm t1 rnd1 (ac_UserID ac) (ac_ClientID ac) (ac_Scopes ac)"
    using reg sec stored G live by (intro Exchange_fresh) simp_all
  have first: "\<exists>tok. fst ?ex = Inr tok"
    unfolding ex using rok by (rule generateAccessToken_succeeds)
  have row: "snd ?ex (codeKey ?code) = ?sm (codeKey ?code)"
    unfolding ex
    by (rule generateAccessToken_frame [of srv ?sm t1 rnd1 _ _ _
          "fst (generateAccessToken srv ?sm t1 rnd1 (ac_UserID ac) (ac_ClientID ac) (ac_Scopes ac))"])
       simp
  have get: "\<And>t2. Storage_Get (snd ?ex) t2 (codeKey ?code) = Storage_Get ?sm t2 (codeKey ?code)"
    using row by (simp add: Storage_Get_def)
  have t1pos: "0 \<le> t1" using clock by simp
  have um: "Unix (t1 + Minute) = Unix t1 + 60"
    using Unix_add_seconds [of t1 60] by (simp add: Minute_def)
  have nz: "Unix (t1 + Minute) \<noteq> 0"
    using Unix_nonneg [OF t1pos] um by simp
  have within: "\<And>t2 rnd2. Unix t2 \<le> Unix (t1 + Minute) \<Longrightarrow>
      ExchangeCodeForToken srv (snd ?ex) t2 rnd2 ?code cid secret uri
        = (Inl CodeAlreadyUsed, snd ?ex)"
  proof -
    fix t2 rnd2
    assume w: "Unix t2 \<le> Unix (t1 + Minute)"
    have "Storage_Get ?sm t2 (codeKey ?code) = Inr ?used"
      using w by (intro Storage_Get_within) (simp_all add: Minute_def Second_def)
    then have g2: "Storage_Get (snd ?ex) t2 (codeKey ?code) = Inr ?used" by (simp add: get)
    have u: "ac_Used (ac\<lparr>ac_Used := True\<rparr>)" by simp
    show "ExchangeCodeForToken srv (snd ?ex) t2 rnd2 ?code cid secret uri
        = (Inl CodeAlreadyUsed, snd ?ex)"
      using Exchange_used [OF reg sec g2 u] .
  qed
  have after: "\<And>t2 rnd2. Unix (t1 + Minute) < Unix t2 \<Longrightarrow>
      ExchangeCodeForToken srv (snd ?ex) t2 rnd2 ?code cid secret uri
        = (Inl InvalidAuthorizationCode, snd ?ex)"
  proof -
    fix t2 rnd2
    assume w: "Unix (t1 + Minute) < Unix t2"
    have "Storage_Get ?sm t2 (codeKey ?code) = Inl (KeyExpired (codeKey ?code))"
      using w nz by (intro Storage_Get_after) (simp_all add: Minute_def Second_def)
    then have g2: "Storage_Get (snd ?ex) t2 (codeKey ?code) = Inl (KeyExpired (codeKey ?code))"
      by (simp add: get)
    show "ExchangeCodeForToken srv (snd ?ex) t2 rnd2 ?code cid secret uri
        = (Inl InvalidAuthorizationCode, snd ?ex)"
      using Exchange_missing [OF reg sec g2] .
  qed
  show ?thesis using first within after by blast
qed

text \<open>
  The claim as stated promises \<^verbatim>\<open>already used\<close> for every second exchange. Two
  minutes after the first exchange the tombstone has expired, and the second exchange
  fails as the exchange of a code never issued does. (The last line: a first exchange
  fails when the random source fails.)
\<close>

theorem late_replay_counterexample:
  "fst issued =
     Inr \<lparr>ac_Code = code0, ac_ClientID = ''app'', ac_RedirectURI = ''https://app/cb'',
          ac_UserID = ''user1'', ac_Scopes = [''read''], ac_CreateTime = 0, ac_ExpiresIn = 600,
          ac_Used = False\<rparr>
   \<and> fst first_exchange = Inr token1
   \<and> fst late_exchange = Inl InvalidAuthorizationCode
   \<and> fst (ExchangeCodeForToken server0 NewStorage (120 * Second) (rand_from 3) ''never-issued''
            ''app'' ''secret'' ''https://app/cb'') = Inl InvalidAuthorizationCode
   \<and> fst (ExchangeCodeForToken server0 (snd issued) Second no_rand code0 ''app'' ''secret''
            ''https://app/cb'') = Inl RandFailed"
  by code_simp

theorem authorization_code_single_use_witness:
  "clients server0 ''app'' = Some client0 \<and> cl_ClientSecret client0 = ''secret''
   \<and> codeExpiration server0 = 10 * Minute
   \<and> fst issued =
       Inr \<lparr>ac_Code = code0, ac_ClientID = ''app'', ac_RedirectURI = ''https://app/cb'',
            ac_UserID = ''user1'', ac_Scopes = [''read''], ac_CreateTime = 0, ac_ExpiresIn = 600,
            ac_Used = False\<rparr>
   \<and> Unix Second \<le> 0 + 600
   \<and> reads (rand_from 1) 0 \<noteq> None \<and> reads (rand_from 1) 1 \<noteq> None
   \<and> (\<exists>tok. fst first_exchange = Inr tok)
   \<and> Unix (30 * Second) \<le> Unix (Second + Minute)
   \<and> replay_exchange = (Inl CodeAlreadyUsed, snd first_exchange)
   \<and> Unix (Second + Minute) < Unix (120 * Second)
   \<and> late_exchange = (Inl InvalidAuthorizationCode, snd first_exchange)"
proof -
  let ?ac = "\<lparr>ac_Code = code0, ac_ClientID = ''app'', ac_RedirectURI = ''https://app/cb'',
            ac_UserID = ''user1'', ac_Scopes = [''read''], ac_CreateTime = 0, ac_ExpiresIn = 600,
            ac_Used = False\<rparr>"
  have reg: "clients server0 ''app'' = Some client0"
    by (simp add: server0_def RegisterClient_def client0_def)
  have sec: "cl_ClientSecret client0 = ''secret''"
    by (simp add: client0_def)
  have ce: "codeExpiration server0 = 10 * Minute"
    by (simp add: server0_def RegisterClient_def NewOAuth2Server_def)
  have i: "fst issued = Inr ?ac"
    by code_simp
  have gen: "GenerateAuthorizationCode server0 NewStorage 0 (rand_from 0) ''app''
               ''https://app/cb'' ''user1'' [''read''] = (Inr ?ac, snd issued)"
    using i by (simp add: issued_def prod_eq_iff)
  have c1: "(0::int) \<le> 0" and c2: "0 \<le> Second" and c3: "Unix 0 + 600 < 2 ^ 63"
    by (simp_all add: Second_def Unix_def)
  have before: "Unix Second \<le> ac_CreateTime ?ac + ac_ExpiresIn ?ac"
    by (simp add: Unix_def Second_def)
  have r0: "reads (rand_from 1) 0 \<noteq> None" and r1: "reads (rand_from 1) 1 \<noteq> None"
    by (simp_all add: rand_from_def)
  note T = authorization_code_single_use [OF reg sec ce gen c1 c2 c3 before r0 r1,
      simplified AuthorizationCode.simps]
  have w1: "Unix (30 * Second) \<le> Unix (Second + Minute)"
    and w2: "Unix (Second + Minute) < Unix (120 * Second)"
    by (simp_all add: Unix_def Second_def Minute_def)
  have a: "\<exists>tok. fst first_exchange = Inr tok"
    using T [THEN conjunct1] by (simp only: first_exchange_def)
  have b: "replay_exchange = (Inl CodeAlreadyUsed, snd first_exchange)"
    using T [THEN conjunct2, THEN conjunct1, rule_format, OF w1, of "rand_from 3"]
    by (simp only: first_exchange_def replay_exchange_def)
  have c: "late_exchange = (Inl InvalidAuthorizationCode, snd first_exchange)"
    using T [THEN conjunct2, THEN conjunct2, rule_format, OF w2, of "rand_from 3"]
    by (simp only: first_exchange_def late_exchange_def)
  show ?thesis
    using reg sec ce i before r0 r1 a w1 b w2 c by (intro conjI) simp_all
qed

lemma RefreshAccessToken_result:
  assumes res: "RefreshAccessToken srv s now rnd r1 cid secret = (Inr new, s')"
    and old: "Storage_Get s now (refreshKey r1) = Inr (VTok old)"
  shows "generateAccessToken srv (Storage_Delete s (tokenKey (at_Token old))) now rnd
           (at_UserID old) (at_ClientID old) (at_Scopes old) = (Inr new, s')"
  using res old
  by (auto simp: RefreshAccessToken_def split: sum.splits if_splits val.splits)

text \<open>
  What the refresh does revoke: when the refresh record of \<open>r1\<close> holds the pair \<open>old\<close>
  and \<^verbatim>\<open>RefreshAccessToken(r1, clientID, clientSecret)\<close> returns a pair \<open>new\<close> with
  another access token, \<^verbatim>\<open>ValidateAccessToken\<close> fails for the old access token at every
  later instant, the new access token validates, and the new refresh token is stored.
\<close>

lemma refresh_revokes_old_access_token:
  assumes res: "RefreshAccessToken srv s now rnd r1 cid secret = (Inr new, s')"
    and old: "Storage_Get s now (refreshKey r1) = Inr (VTok old)"
    and diff: "at_Token new \<noteq> at_Token old"
  shows "(\<forall>later. ValidateAccessToken s' later (at_Token old) = Inl InvalidAccessToken)
    \<and> ValidateAccessToken s' now (at_Token new) = Inr new
    \<and> Storage_Get s' now (refreshKey (at_RefreshToken new)) = Inr (VTok new)"
proof -
  let ?sd = "Storage_Delete s (tokenKey (at_Token old))"
  let ?st = "Storage_Set ?sd now (tokenKey (at_Token new)) (VTok new) (tokenExpiration srv)"
  have s': "s' = Storage_Set ?st now (refreshKey (at_RefreshToken new)) (VTok new) (30 * 24 * Hour)"
    using generateAccessToken_result [OF RefreshAccessToken_result [OF res old]] by simp
  have a: "\<And>later. ValidateAccessToken s' later (at_Token old) = Inl InvalidAccessToken"
    unfolding s' ValidateAccessToken_def using diff
    by (simp add: Storage_Get_other Storage_Get_deleted)
  have b: "ValidateAccessToken s' now (at_Token new) = Inr new"
    unfolding s' ValidateAccessToken_def
    by (simp add: Storage_Get_other Storage_Set_live)
  have c: "Storage_Get s' now (refreshKey (at_RefreshToken new)) = Inr (VTok new)"
    unfolding s' by (rule Storage_Set_live)
  show ?thesis using a b c by blast
qed

text \<open>
  Claim C2. After a successful \<^verbatim>\<open>RefreshAccessToken(r1, ...)\<close> the old pair is to be
  invalid: the old access token fails validation and \<open>r1\<close> is no longer usable. The code
  on the run from the empty storage: the exchange returns the pair \<open>(a1, r1)\<close>, the
  refresh with \<open>r1\<close> returns \<open>(a2, r2)\<close>, and \<open>a1\<close> fails validation. A second refresh
  with \<open>r1\<close> does not fail: it returns a third pair \<open>(a3, r3)\<close>, and the access token
  \<open>a2\<close> of the pair it should have replaced still validates.
\<close>

theorem refresh_token_replay:
  "fst first_exchange = Inr token1
   \<and> fst first_refresh = Inr token2
   \<and> ValidateAccessToken (snd first_refresh) (3 * Second) (at_Token token1)
       = Inl InvalidAccessToken
   \<and> fst second_refresh = Inr token3
   \<and> ValidateAccessToken (snd second_refresh) (4 * Second) (at_Token token2) = Inr token2
   \<and> ValidateAccessToken (snd second_refresh) (4 * Second) (at_Token token3) = Inr token3"
  by code_simp

end
